theory Spec2Isabelle
  imports Complex_Main "HOL-Library.Char_ord" "HOL-Library.List_Lexorder"
begin

section \<open>Strings\<close>

text \<open>
  Text is modelled as \<^typ>\<open>string\<close>: a character is one code unit below 256.
  \<open>toLowerCase\<close> maps \<open>A..Z\<close> and the capital letters from U+00C0 to U+00DE (all of
  that range but the multiplication sign U+00D7) to their small letters (code unit plus
  32, that is bit 5 set) and leaves every other character alone, and the relational
  operators on strings compare code units lexicographically.
\<close>

definition toLowerChar :: "char \<Rightarrow> char" where
  "toLowerChar c =
     (if (CHR ''A'' \<le> c \<and> c \<le> CHR ''Z'')
         \<or> (CHR 0xC0 \<le> c \<and> c \<le> CHR 0xDE \<and> c \<noteq> CHR 0xD7)
      then (case c of Char b0 b1 b2 b3 b4 b5 b6 b7 \<Rightarrow> Char b0 b1 b2 b3 b4 True b6 b7)
      else c)"

definition toLowerCase :: "string \<Rightarrow> string" where
  "toLowerCase s = map toLowerChar s"

text \<open>\<open>s.startsWith(t)\<close> and \<open>s.includes(t)\<close>: \<open>t\<close> occurs in \<open>s\<close> as a contiguous run.\<close>

fun startsWith :: "string \<Rightarrow> string \<Rightarrow> bool" where
  "startsWith s [] = True"
| "startsWith [] (c # t) = False"
| "startsWith (d # s) (c # t) = (d = c \<and> startsWith s t)"

fun includes_str :: "string \<Rightarrow> string \<Rightarrow> bool" where
  "includes_str [] t = (t = [])"
| "includes_str (d # s) t = (startsWith (d # s) t \<or> includes_str s t)"

section \<open>Classifier (getPriority, getSentiment)\<close>

text \<open>
  The argument is \<open>None\<close> when the property is absent (\<open>undefined\<close>); the guard
  \<open>!subject\<close> is also taken by the empty string.
\<close>

definition falsy :: "string option \<Rightarrow> bool" where
  "falsy v = (case v of None \<Rightarrow> True | Some s \<Rightarrow> s = [])"

definition getPriority :: "string option \<Rightarrow> string" where
  "getPriority subject =
     (if falsy subject then ''medium''
      else let lowerSubject = toLowerCase (the subject) in
        if includes_str lowerSubject ''urgent'' \<or> includes_str lowerSubject ''critical''
           \<or> includes_str lowerSubject ''immediate''
        then ''high''
        else if includes_str lowerSubject ''help'' \<or> includes_str lowerSubject ''support''
        then ''medium''
        else ''low'')"

definition getSentiment :: "string option \<Rightarrow> string" where
  "getSentiment body =
     (if falsy body then ''neutral''
      else let lowerBody = toLowerCase (the body) in
        if includes_str lowerBody ''error'' \<or> includes_str lowerBody ''issue''
           \<or> includes_str lowerBody ''problem'' \<or> includes_str lowerBody ''cannot''
           \<or> includes_str lowerBody ''failed''
        then ''negative''
        else if includes_str lowerBody ''thank'' \<or> includes_str lowerBody ''appreciate''
           \<or> includes_str lowerBody ''great'' \<or> includes_str lowerBody ''good''
        then ''positive''
        else ''neutral'')"

text \<open>
  The lexicons as the specification lists them, and case-insensitive containment stated
  on the original text: some contiguous piece of the body reads as the keyword once
  lowered. These two follow the specification's wording, for comparison with
  \<open>getSentiment\<close>.
\<close>

definition negativeLexicon :: "string list" where
  "negativeLexicon = [''error'', ''issue'', ''problem'', ''cannot'', ''failed'']"

definition positiveLexicon :: "string list" where
  "positiveLexicon = [''thank'', ''appreciate'', ''great'', ''good'']"

definition containsKeyword :: "string option \<Rightarrow> string \<Rightarrow> bool" where
  "containsKeyword body w =
     (case body of None \<Rightarrow> False
      | Some b \<Rightarrow> (\<exists>u. includes_str b u \<and> toLowerCase u = w))"

definition containsAny :: "string option \<Rightarrow> string list \<Rightarrow> bool" where
  "containsAny body ws = (\<exists>w \<in> set ws. containsKeyword body w)"

section \<open>Records and values of the collection\<close>

text \<open>
  A record of the collection, with the properties the hook reads. A text property is
  \<open>None\<close> when absent (\<open>undefined\<close>). \<open>received_at\<close> is the instant the property
  denotes, in milliseconds since the epoch, which is what \<open>new Date(email.received_at)\<close>
  compares by.
\<close>

record email =
  email_id :: int
  sender :: "string option"
  subject :: "string option"
  body :: "string option"
  received_at :: int
  priority :: "string option"
  sentiment :: "string option"
  status :: "string option"
  category :: "string option"

text \<open>The value of a dynamic property read \<open>a[sortBy]\<close>.\<close>

datatype jsval = JUndefined | JStr string | JNum int

definition ofText :: "string option \<Rightarrow> jsval" where
  "ofText v = (case v of None \<Rightarrow> JUndefined | Some s \<Rightarrow> JStr s)"

definition getProp :: "email \<Rightarrow> string \<Rightarrow> jsval" where
  "getProp a k =
     (if k = ''id'' then JNum (email_id a)
      else if k = ''sender'' then ofText (sender a)
      else if k = ''subject'' then ofText (subject a)
      else if k = ''body'' then ofText (body a)
      else if k = ''received_at'' then JNum (received_at a)
      else if k = ''priority'' then ofText (priority a)
      else if k = ''sentiment'' then ofText (sentiment a)
      else if k = ''status'' then ofText (status a)
      else if k = ''category'' then ofText (category a)
      else JUndefined)"

text \<open>
  The relational operators \<open><\<close> and \<open>>\<close>: two strings compare by code units, two
  numbers (or two dates, by their time values) numerically, and a comparison with
  \<open>undefined\<close> is false. Both operands are always the same property of two records, so
  a string never meets a number.
\<close>

fun js_lt :: "jsval \<Rightarrow> jsval \<Rightarrow> bool" where
  "js_lt (JStr a) (JStr b) = (a < b)"
| "js_lt (JNum a) (JNum b) = (a < b)"
| "js_lt _ _ = False"

definition js_gt :: "jsval \<Rightarrow> jsval \<Rightarrow> bool" where
  "js_gt a b = js_lt b a"

text \<open>
  \<open>new Date(v)\<close> of a time value keeps it; of \<open>undefined\<close> it is an invalid date,
  which compares false like \<open>undefined\<close>. It is applied to \<open>received_at\<close> only, which is
  a time value in every record.
\<close>

fun newDate :: "jsval \<Rightarrow> jsval" where
  "newDate (JNum t) = JNum t"
| "newDate _ = JUndefined"

section \<open>Array.prototype.sort\<close>

text \<open>
  The sort of the engine, driven by the comparison function only. Each element, in
  input order, is placed into the part already sorted, in front of the first element
  \<open>y\<close> with \<open>comparefn(x, y) < 0\<close>: so an element stays behind every earlier one it does
  not precede, which is the stable order for a comparison function that answers \<open>0\<close>
  on ties. V8's insertion pass asks the same question, \<open>comparefn(new, placed)\<close>, and
  moves the new element in front on a negative answer; it bisects the sorted part where
  this model scans it from the left, which finds the same place whenever the answers
  are consistent. For an inconsistent comparison function the language leaves the order
  to the engine: on a pair V8 and this model agree whatever the answers are, on longer
  inputs they can differ.
\<close>

fun insert_by :: "('a \<Rightarrow> 'a \<Rightarrow> int) \<Rightarrow> 'a \<Rightarrow> 'a list \<Rightarrow> 'a list" where
  "insert_by comparefn x [] = [x]"
| "insert_by comparefn x (y # ys) =
     (if comparefn x y < 0 then x # y # ys else y # insert_by comparefn x ys)"

definition array_sort :: "('a \<Rightarrow> 'a \<Rightarrow> int) \<Rightarrow> 'a list \<Rightarrow> 'a list" where
  "array_sort comparefn xs = foldl (\<lambda>acc x. insert_by comparefn x acc) [] xs"

text \<open>The comparison function of \<open>applyFiltersAndSorting\<close> (useEmails).\<close>

definition compareEmails :: "string \<Rightarrow> string \<Rightarrow> email \<Rightarrow> email \<Rightarrow> int" where
  "compareEmails sortBy sortOrder a b =
     (let aValue = (if sortBy = ''received_at'' then newDate (getProp a sortBy) else getProp a sortBy);
          bValue = (if sortBy = ''received_at'' then newDate (getProp b sortBy) else getProp b sortBy)
      in if sortOrder = ''asc''
         then (if js_gt aValue bValue then 1 else - 1)
         else (if js_lt aValue bValue then 1 else - 1))"

text \<open>
  The comparison function of \<open>filterAndSortEmails\<close> (EmailManagement), on the two
  values read from the records: strings are lowered, and ties answer \<open>0\<close>.
\<close>

definition lowerValue :: "jsval \<Rightarrow> jsval" where
  "lowerValue v = (case v of JStr s \<Rightarrow> JStr (toLowerCase s) | _ \<Rightarrow> v)"

definition compareValues :: "string \<Rightarrow> jsval \<Rightarrow> jsval \<Rightarrow> int" where
  "compareValues sortOrder valueA valueB =
     (let valueA = lowerValue valueA; valueB = lowerValue valueB
      in if js_lt valueA valueB then (if sortOrder = ''asc'' then - 1 else 1)
         else if js_gt valueA valueB then (if sortOrder = ''asc'' then 1 else - 1)
         else 0)"

section \<open>Dates and local time\<close>

text \<open>
  A time value is the number of milliseconds since 1970-01-01T00:00:00Z, an integer.
  (The language clips time values beyond 8.64e15 ms, about 273,000 years from 1970, to an
  invalid date; instants that far away are outside the model.)
\<close>

definition msPerDay :: int where
  "msPerDay = 24 * 60 * 60 * 1000"

subsection \<open>Time zones\<close>

text \<open>
  The time zone of the host, as the language reads it. \<open>utcOffset z t\<close> is
  \<open>LocalTZA(t, true)\<close>, the offset of local time at the instant \<open>t\<close>, and
  \<open>localOffset z lt\<close> is \<open>LocalTZA(lt, false)\<close>, the offset by which the local time value
  \<open>lt\<close> is read back as an instant; for a local time that a clock change skips or repeats
  it is the offset before the change. \<open>LocalTime(t) = t + LocalTZA(t, true)\<close> and
  \<open>UTC(lt) = lt - LocalTZA(lt, false)\<close>. \<open>Day(t)\<close> of the local time is the local
  calendar day, counted from 1970-01-01.
\<close>

record timezone =
  utcOffset :: "int \<Rightarrow> int"
  localOffset :: "int \<Rightarrow> int"

definition localTime :: "timezone \<Rightarrow> int \<Rightarrow> int" where
  "localTime z t = t + utcOffset z t"

definition utcOf :: "timezone \<Rightarrow> int \<Rightarrow> int" where
  "utcOf z lt = lt - localOffset z lt"

definition localDayOf :: "timezone \<Rightarrow> int \<Rightarrow> int" where
  "localDayOf z t = localTime z t div msPerDay"

text \<open>A zone with one offset all year, and UTC.\<close>

definition fixedZone :: "int \<Rightarrow> timezone" where
  "fixedZone offset = \<lparr>utcOffset = (\<lambda>t. offset), localOffset = (\<lambda>lt. offset)\<rparr>"

definition utcZone :: timezone where
  "utcZone = fixedZone 0"

subsection \<open>The calendar\<close>

text \<open>
  The calendar of the language, on day numbers: \<open>DayFromYear\<close>, \<open>InLeapYear\<close>,
  \<open>YearFromTime\<close> (the year \<open>y\<close> with \<open>DayFromYear(y) \<le> d < DayFromYear(y + 1)\<close>, found
  from an estimate that is off by one year at most), \<open>DayWithinYear\<close>, \<open>MonthFromTime\<close>
  (months from 0) and \<open>DateFromTime\<close> (days of the month from 1).
\<close>

definition dayFromYear :: "int \<Rightarrow> int" where
  "dayFromYear y =
     365 * (y - 1970) + (y - 1969) div 4 - (y - 1901) div 100 + (y - 1601) div 400"

definition inLeapYear :: "int \<Rightarrow> bool" where
  "inLeapYear y = (y mod 4 = 0 \<and> (y mod 100 \<noteq> 0 \<or> y mod 400 = 0))"

definition yearFromDay :: "int \<Rightarrow> int" where
  "yearFromDay d =
     (let y = 1970 + (400 * d) div 146097
      in if d < dayFromYear y then y - 1
         else if dayFromYear (y + 1) \<le> d then y + 1
         else y)"

definition leapDay :: "bool \<Rightarrow> int" where
  "leapDay leap = (if leap then 1 else 0)"

text \<open>The day within the year on which month \<open>m\<close> starts (month 12 is the end of the
  year), and the month that holds a day within the year.\<close>

definition monthStartDay :: "bool \<Rightarrow> int \<Rightarrow> int" where
  "monthStartDay leap m =
     (if m = 0 then 0 else if m = 1 then 31 else if m = 2 then 59 + leapDay leap
      else if m = 3 then 90 + leapDay leap else if m = 4 then 120 + leapDay leap
      else if m = 5 then 151 + leapDay leap else if m = 6 then 181 + leapDay leap
      else if m = 7 then 212 + leapDay leap else if m = 8 then 243 + leapDay leap
      else if m = 9 then 273 + leapDay leap else if m = 10 then 304 + leapDay leap
      else if m = 11 then 334 + leapDay leap else 365 + leapDay leap)"

definition monthOfDay :: "bool \<Rightarrow> int \<Rightarrow> int" where
  "monthOfDay leap dwy =
     (if dwy < 31 then 0 else if dwy < 59 + leapDay leap then 1
      else if dwy < 90 + leapDay leap then 2 else if dwy < 120 + leapDay leap then 3
      else if dwy < 151 + leapDay leap then 4 else if dwy < 181 + leapDay leap then 5
      else if dwy < 212 + leapDay leap then 6 else if dwy < 243 + leapDay leap then 7
      else if dwy < 273 + leapDay leap then 8 else if dwy < 304 + leapDay leap then 9
      else if dwy < 334 + leapDay leap then 10 else 11)"

definition dayWithinYear :: "int \<Rightarrow> int" where
  "dayWithinYear d = d - dayFromYear (yearFromDay d)"

definition monthFromDay :: "int \<Rightarrow> int" where
  "monthFromDay d = monthOfDay (inLeapYear (yearFromDay d)) (dayWithinYear d)"

definition dateFromDay :: "int \<Rightarrow> int" where
  "dateFromDay d =
     dayWithinYear d - monthStartDay (inLeapYear (yearFromDay d)) (monthFromDay d) + 1"

text \<open>
  \<open>MakeDay(year, month, date)\<close>: the month is brought into \<open>0..11\<close> by carrying whole
  years, and the day of the month counts on from the first, so that day 0 is the last day
  of the month before and a negative day goes further back.
\<close>

definition makeDay :: "int \<Rightarrow> int \<Rightarrow> int \<Rightarrow> int" where
  "makeDay year month date =
     (let ym = year + month div 12; mn = month mod 12
      in dayFromYear ym + monthStartDay (inLeapYear ym) mn + date - 1)"

subsection \<open>The Date interface\<close>

text \<open>
  The methods of \<open>Date\<close> that the date filter calls, on the time value of a valid date.
  \<open>getFullYear\<close>, \<open>getMonth\<close> and \<open>getDate\<close> read the local calendar day;
  \<open>setHours(0, 0, 0, 0)\<close> keeps the local day and sets the time within it to zero;
  \<open>setDate(dt)\<close> keeps the local year, month and time within the day and sets the day of
  the month; \<open>new Date(year, month, date)\<close> is local midnight of that day, a year from 0
  to 99 standing for 1900 plus that year. Each result is read back from local time with
  \<open>UTC\<close>.
\<close>

definition getFullYear :: "timezone \<Rightarrow> int \<Rightarrow> int" where
  "getFullYear z t = yearFromDay (localDayOf z t)"

definition getMonth :: "timezone \<Rightarrow> int \<Rightarrow> int" where
  "getMonth z t = monthFromDay (localDayOf z t)"

definition getDate :: "timezone \<Rightarrow> int \<Rightarrow> int" where
  "getDate z t = dateFromDay (localDayOf z t)"

definition setHours0 :: "timezone \<Rightarrow> int \<Rightarrow> int" where
  "setHours0 z t = utcOf z (localDayOf z t * msPerDay)"

definition setDate :: "timezone \<Rightarrow> int \<Rightarrow> int \<Rightarrow> int" where
  "setDate z t dt =
     utcOf z (makeDay (getFullYear z t) (getMonth z t) dt * msPerDay
              + localTime z t mod msPerDay)"

definition newDateYMD :: "timezone \<Rightarrow> int \<Rightarrow> int \<Rightarrow> int \<Rightarrow> int" where
  "newDateYMD z year month date =
     (let yr = (if 0 \<le> year \<and> year \<le> 99 then 1900 + year else year)
      in utcOf z (makeDay yr month date * msPerDay))"

section \<open>The store of useEmails\<close>

text \<open>
  A patch object \<open>updates\<close> is the list of its own properties; \<open>{...email, ...updates}\<close>
  copies the record and writes them over it in order.
\<close>

datatype assignment =
    SetId int
  | SetSender "string option"
  | SetSubject "string option"
  | SetBody "string option"
  | SetReceivedAt int
  | SetPriority "string option"
  | SetSentiment "string option"
  | SetStatus "string option"
  | SetCategory "string option"

fun assign :: "email \<Rightarrow> assignment \<Rightarrow> email" where
  "assign e (SetId v) = e\<lparr>email_id := v\<rparr>"
| "assign e (SetSender v) = e\<lparr>sender := v\<rparr>"
| "assign e (SetSubject v) = e\<lparr>subject := v\<rparr>"
| "assign e (SetBody v) = e\<lparr>body := v\<rparr>"
| "assign e (SetReceivedAt v) = e\<lparr>received_at := v\<rparr>"
| "assign e (SetPriority v) = e\<lparr>priority := v\<rparr>"
| "assign e (SetSentiment v) = e\<lparr>sentiment := v\<rparr>"
| "assign e (SetStatus v) = e\<lparr>status := v\<rparr>"
| "assign e (SetCategory v) = e\<lparr>category := v\<rparr>"

definition spread :: "email \<Rightarrow> assignment list \<Rightarrow> email" where
  "spread e updates = foldl assign e updates"

text \<open>
  A call that reached the remote boundary. The list \<open>requests\<close> of the state below is
  not a state variable of the hook: it records, oldest first, the calls the hook has
  made through \<open>emailAPI\<close>, so that the effect on the remote side can be observed.
\<close>

datatype request = GetEmails | UpdateEmail int "assignment list" | DeleteEmail int

record state =
  emails :: "email list"
  filteredEmails :: "email list"
  loading :: bool
  error :: "string option"
  refreshing :: bool
  filters :: "string \<rightharpoonup> string"
  sortBy :: string
  sortOrder :: string
  viewMode :: string
  currentPage :: int
  pageSize :: int
  totalEmails :: int
  selectedEmails :: "int list"
  selectAll :: bool
  emailCache :: "int \<rightharpoonup> email"
  lastFetch :: "int option"
  requests :: "request list"

definition initialFilters :: "string \<rightharpoonup> string" where
  "initialFilters =
     [''search'' \<mapsto> [], ''priority'' \<mapsto> ''all'', ''sentiment'' \<mapsto> ''all'',
      ''status'' \<mapsto> ''all'', ''category'' \<mapsto> ''all'', ''dateRange'' \<mapsto> ''all'']"

definition initialState :: state where
  "initialState =
     \<lparr>emails = [], filteredEmails = [], loading = True, error = None, refreshing = False,
      filters = initialFilters, sortBy = ''received_at'', sortOrder = ''desc'',
      viewMode = ''list'', currentPage = 1, pageSize = 20, totalEmails = 0,
      selectedEmails = [], selectAll = False, emailCache = Map.empty, lastFetch = None,
      requests = []\<rparr>"

definition CACHE_DURATION :: int where
  "CACHE_DURATION = 5 * 60 * 1000"

subsection \<open>The remote boundary (services/api.js)\<close>

text \<open>
  An awaited call either yields a value or throws. \<open>emailAPI\<close> is the object exported
  by services/api.js, given by the names of its members. Calling a member the object
  does not have throws a TypeError before anything is sent; calling one it has sends
  the request and settles as the remote side answers (the answer is a parameter).
\<close>

datatype exn = Error string | TypeError string

fun message :: "exn \<Rightarrow> string" where
  "message (Error m) = m"
| "message (TypeError m) = m"

datatype 'a settled = Fulfilled 'a | Rejected exn

definition emailAPI :: "string list" where
  "emailAPI =
     [''getEmails'', ''getEmail'', ''getUrgentEmails'', ''getTodayEmails'',
      ''getPriorityQueue'', ''sendResponse'', ''updateResponse'', ''updateEmail'',
      ''bulkUpdateEmails'', ''refreshEmails'']"

definition invoke :: "string \<Rightarrow> request \<Rightarrow> 'a settled \<Rightarrow> state \<Rightarrow> state \<times> 'a settled" where
  "invoke member req answer st =
     (if member \<in> set emailAPI
      then (st\<lparr>requests := requests st @ [req]\<rparr>, answer)
      else (st, Rejected (TypeError (''emailAPI.'' @ member @ '' is not a function''))))"

text \<open>\<open>err.message || fallback\<close>.\<close>

definition messageOr :: "exn \<Rightarrow> string \<Rightarrow> string" where
  "messageOr err fallback = (if message err = [] then fallback else message err)"

subsection \<open>loadEmails and refreshEmails\<close>

text \<open>
  An asynchronous operation takes the state and returns the state it leaves together
  with the fate of its promise: \<open>None\<close> when it is fulfilled, \<open>Some err\<close> when it
  rejects with \<open>err\<close>. \<open>now\<close> is \<open>Date.now()\<close>; \<open>getEmails\<close> is the answer of the remote
  side to the list request, where a response without an \<open>emails\<close> property is \<open>None\<close>.
\<close>

definition buildCache :: "email list \<Rightarrow> (int \<rightharpoonup> email)" where
  "buildCache emailList = foldl (\<lambda>newCache e. newCache(email_id e \<mapsto> e)) Map.empty emailList"

definition cacheFresh :: "int option \<Rightarrow> int \<Rightarrow> bool" where
  "cacheFresh fetched now =
     (case fetched of None \<Rightarrow> False | Some t \<Rightarrow> t \<noteq> 0 \<and> now - t < CACHE_DURATION)"

definition loadEmails ::
  "bool \<Rightarrow> int \<Rightarrow> email list option settled \<Rightarrow> state \<Rightarrow> state \<times> exn option" where
  "loadEmails forceRefresh now getEmails st0 =
     (let st1 = st0\<lparr>error := None\<rparr> in
      if \<not> forceRefresh \<and> cacheFresh (lastFetch st1) now
      then (st1\<lparr>loading := False\<rparr>, None)
      else
        let st2 = st1\<lparr>loading := True\<rparr>;
            (st3, response) = invoke ''getEmails'' GetEmails getEmails st2
        in case response of
             Fulfilled r \<Rightarrow>
               let emailList = (case r of None \<Rightarrow> [] | Some l \<Rightarrow> l)
               in (st3\<lparr>emails := emailList,
                        totalEmails := int (length emailList),
                        lastFetch := Some now,
                        emailCache := buildCache emailList,
                        loading := False\<rparr>, None)
           | Rejected err \<Rightarrow>
               (st3\<lparr>error := Some (messageOr err ''Failed to load emails''),
                     loading := False\<rparr>, None))"

definition refreshEmails ::
  "int \<Rightarrow> email list option settled \<Rightarrow> state \<Rightarrow> state \<times> exn option" where
  "refreshEmails now getEmails st0 =
     (let st1 = st0\<lparr>refreshing := True\<rparr>;
          (st2, thrown) = loadEmails True now getEmails st1
      in case thrown of
           None \<Rightarrow> (st2\<lparr>refreshing := False\<rparr>, None)
         | Some err \<Rightarrow> (st2, Some err))"

subsection \<open>applyFiltersAndSorting\<close>

text \<open>
  \<open>now\<close> is the instant of \<open>new Date()\<close> and \<open>tza\<close> the time zone of the host. Two dates
  have the same \<open>toDateString()\<close> exactly when they fall on the same local day.
\<close>

text \<open>\<open>v?.toLowerCase().includes(searchLower)\<close>, which is \<open>undefined\<close> (falsy) for an
  absent \<open>v\<close>.\<close>

definition lowerIncludes :: "string option \<Rightarrow> string \<Rightarrow> bool" where
  "lowerIncludes v searchLower =
     (case v of None \<Rightarrow> False | Some s \<Rightarrow> includes_str (toLowerCase s) searchLower)"

definition applyDateRange :: "timezone \<Rightarrow> int \<Rightarrow> string option \<Rightarrow> email list \<Rightarrow> email list" where
  "applyDateRange tza now dateRange filtered =
     (if dateRange = Some ''today''
      then filter (\<lambda>email. localDayOf tza (received_at email) = localDayOf tza now) filtered
      else if dateRange = Some ''week''
      then let weekAgo = now - 7 * 24 * 60 * 60 * 1000
           in filter (\<lambda>email. received_at email \<ge> weekAgo) filtered
      else if dateRange = Some ''month''
      then let monthAgo = now - 30 * 24 * 60 * 60 * 1000
           in filter (\<lambda>email. received_at email \<ge> monthAgo) filtered
      else filtered)"

definition applyFilters :: "timezone \<Rightarrow> int \<Rightarrow> (string \<rightharpoonup> string) \<Rightarrow> email list \<Rightarrow> email list" where
  "applyFilters tza now f es =
     (let filtered = es;
          filtered =
            (if \<not> falsy (f ''search'')
             then let searchLower = toLowerCase (the (f ''search''))
                  in filter (\<lambda>email. lowerIncludes (subject email) searchLower
                                  \<or> lowerIncludes (sender email) searchLower
                                  \<or> lowerIncludes (body email) searchLower) filtered
             else filtered);
          filtered =
            (if f ''priority'' \<noteq> Some ''all''
             then filter (\<lambda>email. priority email = f ''priority'') filtered else filtered);
          filtered =
            (if f ''sentiment'' \<noteq> Some ''all''
             then filter (\<lambda>email. sentiment email = f ''sentiment'') filtered else filtered);
          filtered =
            (if f ''status'' \<noteq> Some ''all''
             then filter (\<lambda>email. status email = f ''status'') filtered else filtered);
          filtered =
            (if f ''category'' \<noteq> Some ''all''
             then filter (\<lambda>email. category email = f ''category'') filtered else filtered)
      in if f ''dateRange'' \<noteq> Some ''all''
         then applyDateRange tza now (f ''dateRange'') filtered
         else filtered)"

definition applyFiltersAndSorting :: "timezone \<Rightarrow> int \<Rightarrow> state \<Rightarrow> state" where
  "applyFiltersAndSorting tza now st =
     (let filtered = applyFilters tza now (filters st) (emails st);
          filtered = array_sort (compareEmails (sortBy st) (sortOrder st)) filtered
      in st\<lparr>filteredEmails := filtered,
             totalEmails := int (length filtered),
             currentPage := 1\<rparr>)"

definition updateFilters :: "(string \<rightharpoonup> string) \<Rightarrow> state \<Rightarrow> state" where
  "updateFilters newFilters st = st\<lparr>filters := filters st ++ newFilters\<rparr>"

definition updateSorting :: "string \<Rightarrow> state \<Rightarrow> state" where
  "updateSorting field st =
     (if sortBy st = field
      then st\<lparr>sortOrder := (if sortOrder st = ''asc'' then ''desc'' else ''asc'')\<rparr>
      else st\<lparr>sortBy := field, sortOrder := ''desc''\<rparr>)"

subsection \<open>Bulk operations\<close>

definition bulkUpdateStatus ::
  "string \<Rightarrow> int \<Rightarrow> email list option settled \<Rightarrow> state \<Rightarrow> state \<times> exn option" where
  "bulkUpdateStatus newStatus now getEmails st0 =
     (if length (selectedEmails st0) = 0 then (st0, None)
      else
        let st1 = st0\<lparr>loading := True\<rparr>;
            st2 = st1\<lparr>selectedEmails := [], selectAll := False\<rparr>;
            (st3, thrown) = refreshEmails now getEmails st2
        in case thrown of
             None \<Rightarrow> (st3\<lparr>loading := False\<rparr>, None)
           | Some err \<Rightarrow>
               (st3\<lparr>error := Some (messageOr err ''Failed to update emails''),
                     loading := False\<rparr>, None))"

definition bulkDelete ::
  "int \<Rightarrow> email list option settled \<Rightarrow> state \<Rightarrow> state \<times> exn option" where
  "bulkDelete now getEmails st0 =
     (if length (selectedEmails st0) = 0 then (st0, None)
      else
        let st1 = st0\<lparr>loading := True\<rparr>;
            st2 = st1\<lparr>selectedEmails := [], selectAll := False\<rparr>;
            (st3, thrown) = refreshEmails now getEmails st2
        in case thrown of
             None \<Rightarrow> (st3\<lparr>loading := False\<rparr>, None)
           | Some err \<Rightarrow>
               (st3\<lparr>error := Some (messageOr err ''Failed to delete emails''),
                     loading := False\<rparr>, None))"

subsection \<open>updateEmail and deleteEmail\<close>

text \<open>
  \<open>answer\<close> is what the remote side would answer to the update or delete request;
  \<open>getEmails\<close> what it answers to the list request of the reload.
\<close>

definition patchEmails :: "int \<Rightarrow> assignment list \<Rightarrow> state \<Rightarrow> state" where
  "patchEmails emailId updates st =
     st\<lparr>emails := map (\<lambda>email. if email_id email = emailId then spread email updates else email)
                       (emails st)\<rparr>"

definition patchCache :: "int \<Rightarrow> assignment list \<Rightarrow> state \<Rightarrow> state" where
  "patchCache emailId updates st =
     st\<lparr>emailCache :=
          (case emailCache st emailId of
             None \<Rightarrow> emailCache st
           | Some email \<Rightarrow> (emailCache st)(emailId \<mapsto> spread email updates))\<rparr>"

definition updateEmail ::
  "int \<Rightarrow> assignment list \<Rightarrow> unit settled \<Rightarrow> int \<Rightarrow> email list option settled
     \<Rightarrow> state \<Rightarrow> state \<times> exn option" where
  "updateEmail emailId updates answer now getEmails st0 =
     (let st1 = patchEmails emailId updates st0;
          st2 = patchCache emailId updates st1;
          (st3, settled) = invoke ''updateEmail'' (UpdateEmail emailId updates) answer st2
      in case settled of
           Fulfilled _ \<Rightarrow> (st3, None)
         | Rejected err \<Rightarrow>
             (let (st4, thrown) = refreshEmails now getEmails st3
              in case thrown of None \<Rightarrow> (st4, Some err) | Some err' \<Rightarrow> (st4, Some err')))"

definition removeEmail :: "int \<Rightarrow> state \<Rightarrow> state" where
  "removeEmail emailId st =
     st\<lparr>emails := filter (\<lambda>email. email_id email \<noteq> emailId) (emails st),
        filteredEmails := filter (\<lambda>email. email_id email \<noteq> emailId) (filteredEmails st),
        emailCache := (emailCache st)(emailId := None)\<rparr>"

definition deleteEmail ::
  "int \<Rightarrow> unit settled \<Rightarrow> int \<Rightarrow> email list option settled
     \<Rightarrow> state \<Rightarrow> state \<times> exn option" where
  "deleteEmail emailId answer now getEmails st0 =
     (let st1 = removeEmail emailId st0;
          (st2, settled) = invoke ''deleteEmail'' (DeleteEmail emailId) answer st1
      in case settled of
           Fulfilled _ \<Rightarrow> (st2, None)
         | Rejected err \<Rightarrow>
             (let (st3, thrown) = refreshEmails now getEmails st2
              in case thrown of None \<Rightarrow> (st3, Some err) | Some err' \<Rightarrow> (st3, Some err')))"

subsection \<open>Pagination\<close>

text \<open>\<open>xs.slice(start, fin)\<close>: a negative index counts from the end, and both are
  clamped to the array.\<close>

definition js_slice :: "'a list \<Rightarrow> int \<Rightarrow> int \<Rightarrow> 'a list" where
  "js_slice xs start fin =
     (let len = int (length xs);
          k = (if start < 0 then max (len + start) 0 else min start len);
          final = (if fin < 0 then max (len + fin) 0 else min fin len)
      in take (nat (final - k)) (drop (nat k) xs))"

definition paginatedEmails :: "state \<Rightarrow> email list" where
  "paginatedEmails st =
     (let startIndex = (currentPage st - 1) * pageSize st;
          endIndex = startIndex + pageSize st
      in js_slice (filteredEmails st) startIndex endIndex)"

text \<open>
  \<open>Math.ceil(totalEmails / pageSize)\<close>. With a page size of zero the quotient is
  \<open>Infinity\<close>, \<open>-Infinity\<close> or \<open>NaN\<close>, no integer: \<open>None\<close>.
\<close>

definition totalPages :: "state \<Rightarrow> int option" where
  "totalPages st =
     (if pageSize st = 0 then None else Some (- ((- totalEmails st) div pageSize st)))"

text \<open>
  \<open>setCurrentPage(Math.max(1, Math.min(page, totalPages)))\<close>. With \<open>Infinity\<close> pages
  (a zero page size and a positive count) the minimum is \<open>page\<close>; with \<open>-Infinity\<close> pages
  (a negative count, which the hook never sets) the maximum is 1; with \<open>NaN\<close> pages (no
  records and a zero page size) the page becomes \<open>NaN\<close>, which the state cannot hold:
  \<open>None\<close>.
\<close>

definition goToPage :: "int \<Rightarrow> state \<Rightarrow> state option" where
  "goToPage page st =
     (case totalPages st of
        Some n \<Rightarrow> Some (st\<lparr>currentPage := max 1 (min page n)\<rparr>)
      | None \<Rightarrow>
          if totalEmails st = 0 then None
          else if totalEmails st < 0 then Some (st\<lparr>currentPage := 1\<rparr>)
          else Some (st\<lparr>currentPage := max 1 page\<rparr>))"

subsection \<open>Statistics\<close>

record sentimentCounts =
  positive :: nat
  negative :: nat
  neutral :: nat

text \<open>\<open>resolutionRate\<close> is the exact quotient; the rounding of the double is not modelled.\<close>

record statistics =
  total :: nat
  urgent :: nat
  pending :: nat
  resolved :: nat
  sentimentStats :: sentimentCounts
  resolutionRate :: rat

definition stats :: "email list \<Rightarrow> statistics" where
  "stats es =
     (let total = length es;
          urgent = length (filter (\<lambda>email. priority email = Some ''urgent'') es);
          pending = length (filter (\<lambda>email. status email = Some ''pending'') es);
          resolved = length (filter (\<lambda>email. status email = Some ''resolved'') es);
          positive = length (filter (\<lambda>email. sentiment email = Some ''positive'') es);
          negative = length (filter (\<lambda>email. sentiment email = Some ''negative'') es);
          neutral = length (filter (\<lambda>email. sentiment email = Some ''neutral'') es)
      in \<lparr>total = total, urgent = urgent, pending = pending, resolved = resolved,
          sentimentStats = \<lparr>positive = positive, negative = negative, neutral = neutral\<rparr>,
          resolutionRate = (if total > 0 then (of_nat resolved / of_nat total) * 100 else 0)\<rparr>)"

section \<open>Date buckets of filterAndSortEmails (EmailManagement)\<close>

text \<open>
  \<open>emailDate\<close> is the value of \<open>new Date(email.sent_date)\<close>: the instant the property
  denotes, or \<open>None\<close> for an invalid date (the property \<open>undefined\<close> or no date). A
  comparison with an invalid date is false.
\<close>

definition dateGe :: "int option \<Rightarrow> int \<Rightarrow> bool" where
  "dateGe emailDate t = (case emailDate of None \<Rightarrow> False | Some r \<Rightarrow> r \<ge> t)"

definition dateLt :: "int option \<Rightarrow> int \<Rightarrow> bool" where
  "dateLt emailDate t = (case emailDate of None \<Rightarrow> False | Some r \<Rightarrow> r < t)"

definition dateLe :: "int option \<Rightarrow> int \<Rightarrow> bool" where
  "dateLe emailDate t = (case emailDate of None \<Rightarrow> False | Some r \<Rightarrow> r \<le> t)"

text \<open>
  The date filter of \<open>filterAndSortEmails\<close>: \<open>matchesDate\<close> for one record, with \<open>now\<close> the
  instant of \<open>new Date()\<close>, \<open>dateFilter\<close> the value of \<open>selectedFilters.date\<close> and \<open>z\<close> the
  time zone of the host.
\<close>

definition matchesDate :: "timezone \<Rightarrow> int \<Rightarrow> string \<Rightarrow> int option \<Rightarrow> bool" where
  "matchesDate z now dateFilter emailDate =
     (if dateFilter \<noteq> ''all''
      then
        let today = setHours0 z now;
            yesterday = setDate z today (getDate z today - 1);
            last7Days = setDate z today (getDate z today - 7);
            last30Days = setDate z today (getDate z today - 30);
            thisMonthStart = newDateYMD z (getFullYear z today) (getMonth z today) 1;
            lastMonthStart = newDateYMD z (getFullYear z today) (getMonth z today - 1) 1;
            lastMonthEnd = newDateYMD z (getFullYear z today) (getMonth z today) 0
        in if dateFilter = ''today'' then dateGe emailDate today
           else if dateFilter = ''yesterday''
                then dateGe emailDate yesterday \<and> dateLt emailDate today
           else if dateFilter = ''last7days'' then dateGe emailDate last7Days
           else if dateFilter = ''last30days'' then dateGe emailDate last30Days
           else if dateFilter = ''thisMonth'' then dateGe emailDate thisMonthStart
           else if dateFilter = ''lastMonth''
                then dateGe emailDate lastMonthStart \<and> dateLe emailDate lastMonthEnd
           else True
      else True)"

subsection \<open>The bounds the buckets are stated with\<close>

text \<open>
  The instants a bucket is described by, in terms of day numbers and clock readings:
  \<open>localMidnight z d\<close> is the instant at which the local day \<open>d\<close> starts, \<open>startOfDay z now\<close>
  the start of the local day of \<open>now\<close>, \<open>daysBack z t k\<close> the instant whose local clock
  reading is that of \<open>t\<close> moved back by \<open>k\<close> days of 24 hours (the same time of day, \<open>k\<close>
  calendar days earlier), and \<open>firstOfMonth d\<close> the first day of the month of the day \<open>d\<close>.
  \<open>instant z y m d h mi s\<close> is the instant at which the local clock of \<open>z\<close> shows the given
  date (months from 1) and time.
\<close>

definition localMidnight :: "timezone \<Rightarrow> int \<Rightarrow> int" where
  "localMidnight z d = utcOf z (d * msPerDay)"

definition startOfDay :: "timezone \<Rightarrow> int \<Rightarrow> int" where
  "startOfDay z now = localMidnight z (localDayOf z now)"

definition daysBack :: "timezone \<Rightarrow> int \<Rightarrow> int \<Rightarrow> int" where
  "daysBack z t k = utcOf z (localTime z t - k * msPerDay)"

definition firstOfMonth :: "int \<Rightarrow> int" where
  "firstOfMonth d = d - dateFromDay d + 1"

definition instant :: "timezone \<Rightarrow> int \<Rightarrow> int \<Rightarrow> int \<Rightarrow> int \<Rightarrow> int \<Rightarrow> int \<Rightarrow> int" where
  "instant z y m d h mi s =
     utcOf z (makeDay y (m - 1) d * msPerDay + ((h * 60 + mi) * 60 + s) * 1000)"

subsection \<open>Two zones with clock changes\<close>

text \<open>
  The Eastern zone of the United States in 2024: daylight time (UTC-4) from
  2024-03-10T07:00Z, when the local clock jumps from 02:00 to 03:00, to 2024-11-03T06:00Z,
  when it falls back from 02:00 to 01:00, and standard time (UTC-5) otherwise. The zone of
  Sao Paulo in the summer of 2018: daylight time (UTC-2) from 2018-11-04T03:00Z, when
  the local clock jumps from 00:00 to 01:00, so that the day has no midnight, to
  2019-02-17T02:00Z, and standard time (UTC-3) otherwise.
\<close>

definition easternZone2024 :: timezone where
  "easternZone2024 =
     \<lparr>utcOffset = (\<lambda>t. if 1710054000000 \<le> t \<and> t < 1730613600000
                         then - 14400000 else - 18000000),
      localOffset = (\<lambda>lt. if 1710039600000 \<le> lt \<and> lt < 1730599200000
                            then - 14400000 else - 18000000)\<rparr>"

definition saoPaulo2018 :: timezone where
  "saoPaulo2018 =
     \<lparr>utcOffset = (\<lambda>t. if 1541300400000 \<le> t \<and> t < 1550368800000
                         then - 7200000 else - 10800000),
      localOffset = (\<lambda>lt. if 1541293200000 \<le> lt \<and> lt < 1550361600000
                            then - 7200000 else - 10800000)\<rparr>"

section \<open>Contact extraction (extractContactInfo)\<close>

text \<open>
  The character classes of the two patterns. \<open>\s\<close> is the white space among the code
  units below 256: space, tab, line feed, vertical tab, form feed, carriage return and the
  no-break space (U+00A0).
\<close>

definition isDigit :: "char \<Rightarrow> bool" where
  "isDigit c = (CHR ''0'' \<le> c \<and> c \<le> CHR ''9'')"

definition isAlpha :: "char \<Rightarrow> bool" where
  "isAlpha c = ((CHR ''a'' \<le> c \<and> c \<le> CHR ''z'') \<or> (CHR ''A'' \<le> c \<and> c \<le> CHR ''Z''))"

definition isSpace :: "char \<Rightarrow> bool" where
  "isSpace c = (c = CHR '' '' \<or> (CHR 0x09 \<le> c \<and> c \<le> CHR 0x0D) \<or> c = CHR 0xA0)"

definition phoneClass :: "char \<Rightarrow> bool" where
  "phoneClass c = (isDigit c \<or> isSpace c \<or> c = CHR ''-'' \<or> c = CHR ''('' \<or> c = CHR '')'')"

definition localClass :: "char \<Rightarrow> bool" where
  "localClass c =
     (isAlpha c \<or> isDigit c \<or> c = CHR ''.'' \<or> c = CHR ''_'' \<or> c = CHR ''%''
      \<or> c = CHR ''+'' \<or> c = CHR ''-'')"

definition domainClass :: "char \<Rightarrow> bool" where
  "domainClass c = (isAlpha c \<or> isDigit c \<or> c = CHR ''.'' \<or> c = CHR ''-'')"

text \<open>
  \<open>/(\+?[\d\s\-\(\)]{10,})/\<close> tried at the head of \<open>s\<close>: an optional plus sign, then
  the longest run of the class, which must have ten characters or more. (Giving the plus
  sign back does not help: the class does not contain it.)
\<close>

definition matchPhoneAt :: "string \<Rightarrow> string option" where
  "matchPhoneAt s =
     (let plus = (case s of c # r \<Rightarrow> if c = CHR ''+'' then [c] else [] | [] \<Rightarrow> []);
          run = takeWhile phoneClass (drop (length plus) s)
      in if length run \<ge> 10 then Some (plus @ run) else None)"

text \<open>
  \<open>/([a-zA-Z0-9._%+-]+@[a-zA-Z0-9.-]+\.[a-zA-Z]{2,})/\<close> tried at the head of \<open>s\<close>: the
  longest run of the local class (a shorter one is not followed by \<open>@\<close>), the \<open>@\<close>,
  then the longest domain part that is followed by a dot and two letters or more; the
  letters are taken greedily.
\<close>

definition matchEmailAt :: "string \<Rightarrow> string option" where
  "matchEmailAt s =
     (let localPart = takeWhile localClass s
      in if localPart = [] then None
         else case drop (length localPart) s of
                [] \<Rightarrow> None
              | c # r \<Rightarrow>
                  if c \<noteq> CHR ''@'' then None
                  else
                    (let dom = takeWhile domainClass r;
                         tld = (\<lambda>k. takeWhile isAlpha (drop (Suc k) dom));
                         splits = filter (\<lambda>k. dom ! k = CHR ''.'' \<and> length (tld k) \<ge> 2)
                                         (rev [1..<length dom])
                     in (case splits of
                           [] \<Rightarrow> None
                         | k # ks \<Rightarrow>
                             Some (localPart @ [c] @ take k dom @ [CHR ''.''] @ tld k))))"

text \<open>
  \<open>body.match(regex) || []\<close> with the \<open>g\<close> flag: the matches from left to right, each
  search resuming where the last match ended (one character further after an empty
  match).
\<close>

function matchAll :: "(string \<Rightarrow> string option) \<Rightarrow> string \<Rightarrow> string list" where
  "matchAll matchAt [] = (case matchAt [] of None \<Rightarrow> [] | Some m \<Rightarrow> [m])"
| "matchAll matchAt (c # s) =
     (case matchAt (c # s) of
        None \<Rightarrow> matchAll matchAt s
      | Some m \<Rightarrow> m # matchAll matchAt (drop (max 1 (length m)) (c # s)))"
  by pat_completeness auto
termination
  by (relation "measure (\<lambda>(matchAt, s). length s)") auto

text \<open>\<open>[...new Set(xs)]\<close>: the values in the order of their first occurrence.\<close>

definition newSet :: "'a list \<Rightarrow> 'a list" where
  "newSet xs = foldl (\<lambda>seen x. if x \<in> set seen then seen else seen @ [x]) [] xs"

text \<open>
  The result of \<open>extractContactInfo\<close> in EmailCard. The copy in ResponseEditor computes
  the same two properties from the same patterns (and a third, \<open>names\<close>, which is not
  modelled).
\<close>

record contactInfo =
  contact_phones :: "string list"
  contact_emails :: "string list"

definition extractContactInfo :: "string \<Rightarrow> contactInfo" where
  "extractContactInfo bodyText =
     (let phones = matchAll matchPhoneAt bodyText;
          emails = matchAll matchEmailAt bodyText
      in \<lparr>contact_phones = newSet phones, contact_emails = newSet emails\<rparr>)"

section \<open>Sample data\<close>

text \<open>
  Two records received at the same instant (2024-03-15 00:00:01 UTC) and with the same
  priority, and a loaded store that holds them with both selected.
\<close>

definition sampleA :: email where
  "sampleA =
     \<lparr>email_id = 1, sender = Some ''ann@example.com'', subject = Some ''Invoice overdue'',
      body = Some ''Please help with the invoice'', received_at = 1710460801000,
      priority = Some ''high'', sentiment = Some ''neutral'', status = Some ''pending'',
      category = Some ''billing''\<rparr>"

definition sampleB :: email where
  "sampleB =
     \<lparr>email_id = 2, sender = Some ''bob@example.com'', subject = Some ''Login'',
      body = Some ''I cannot log in'', received_at = 1710460801000,
      priority = Some ''high'', sentiment = Some ''negative'', status = Some ''pending'',
      category = Some ''account''\<rparr>"

definition sampleState :: state where
  "sampleState =
     initialState\<lparr>emails := [sampleA, sampleB], filteredEmails := [sampleA, sampleB],
                  loading := False, totalEmails := 2, selectedEmails := [1, 2],
                  selectAll := True, emailCache := buildCache [sampleA, sampleB],
                  lastFetch := Some 1710496800000, requests := [GetEmails]\<rparr>"

text \<open>The sample store showing its second page, one record to a page.\<close>

definition pagedState :: state where
  "pagedState = sampleState\<lparr>pageSize := 1, currentPage := 2\<rparr>"

section \<open>Substring search and lowering\<close>

lemma startsWith_iff: "startsWith s t \<longleftrightarrow> (\<exists>r. s = t @ r)"
  by (induction s t rule: startsWith.induct) auto

lemma includes_str_iff: "includes_str s t \<longleftrightarrow> (\<exists>p r. s = p @ t @ r)"
proof (induction s)
  case Nil
  then show ?case by auto
next
  case (Cons d s)
  show ?case
  proof
    assume "includes_str (d # s) t"
    then consider "startsWith (d # s) t" | "includes_str s t" by auto
    then show "\<exists>p r. d # s = p @ t @ r"
    proof cases
      case 1
      then obtain r where "d # s = t @ r" using startsWith_iff by blast
      then have "d # s = [] @ t @ r" by simp
      then show ?thesis by blast
    next
      case 2
      then obtain p r where "s = p @ t @ r" using Cons.IH by blast
      then have "d # s = (d # p) @ t @ r" by simp
      then show ?thesis by blast
    qed
  next
    assume "\<exists>p r. d # s = p @ t @ r"
    then obtain p r where e: "d # s = p @ t @ r" by blast
    show "includes_str (d # s) t"
    proof (cases p)
      case Nil
      with e have "startsWith (d # s) t" using startsWith_iff by auto
      then show ?thesis by simp
    next
      case (Cons a p')
      with e have "s = p' @ t @ r" by simp
      then have "includes_str s t" using Cons.IH by blast
      then show ?thesis by simp
    qed
  qed
qed

lemma includes_toLowerCase:
  "includes_str (toLowerCase b) w \<longleftrightarrow> (\<exists>u. includes_str b u \<and> toLowerCase u = w)"
proof
  assume "includes_str (toLowerCase b) w"
  then obtain p r where "map toLowerChar b = p @ w @ r"
    unfolding includes_str_iff toLowerCase_def by blast
  then obtain p' u r' where "b = p' @ u @ r'" "map toLowerChar u = w"
    by (metis map_eq_append_conv)
  then show "\<exists>u. includes_str b u \<and> toLowerCase u = w"
    unfolding includes_str_iff toLowerCase_def by blast
next
  assume "\<exists>u. includes_str b u \<and> toLowerCase u = w"
  then obtain u p r where "b = p @ u @ r" "toLowerCase u = w"
    unfolding includes_str_iff by blast
  then have "toLowerCase b = toLowerCase p @ w @ toLowerCase r"
    by (simp add: toLowerCase_def)
  then show "includes_str (toLowerCase b) w"
    unfolding includes_str_iff by blast
qed

section \<open>The sentiment classifier\<close>

lemma containsKeyword_lower:
  "containsKeyword (Some b) w = includes_str (toLowerCase b) w"
  by (simp add: containsKeyword_def includes_toLowerCase)

lemma containsAny_None: "containsAny None ws = False"
  by (simp add: containsAny_def containsKeyword_def)

text \<open>
  C3. \<open>getSentiment\<close> always answers one of \<open>negative\<close>, \<open>positive\<close>, \<open>neutral\<close>, and
  it looks at the negative lexicon first: a body that contains one of error, issue,
  problem, cannot, failed (in any letter case, as a substring) is negative even if it
  also contains one of thank, appreciate, great, good; otherwise a body that contains
  one of the latter is positive; every other body, the empty one and the absent one
  included, is neutral.
\<close>

theorem getSentiment_lexicon_order:
  "getSentiment bodyText =
     (if containsAny bodyText negativeLexicon then ''negative''
      else if containsAny bodyText positiveLexicon then ''positive''
      else ''neutral'')
   \<and> getSentiment None = ''neutral'' \<and> getSentiment (Some []) = ''neutral''"
proof -
  have absent: "getSentiment None = ''neutral''"
    by (simp add: getSentiment_def falsy_def)
  have empty: "getSentiment (Some []) = ''neutral''"
    by (simp add: getSentiment_def falsy_def)
  have main: "getSentiment bodyText =
     (if containsAny bodyText negativeLexicon then ''negative''
      else if containsAny bodyText positiveLexicon then ''positive''
      else ''neutral'')"
  proof (cases bodyText)
    case None
    then show ?thesis using absent by (simp add: containsAny_None)
  next
    case (Some b)
    show ?thesis
    proof (cases "b = []")
      case True
      then show ?thesis
        using Some empty
        by (simp add: containsAny_def containsKeyword_lower toLowerCase_def
            negativeLexicon_def positiveLexicon_def)
    next
      case False
      then show ?thesis
        using Some
        by (simp add: getSentiment_def falsy_def Let_def containsAny_def
            containsKeyword_lower negativeLexicon_def positiveLexicon_def)
    qed
  qed
  from main absent empty show ?thesis by blast
qed

theorem getSentiment_lexicon_order_witness:
  "containsAny (Some ''The payment FAILED, thank you'') negativeLexicon
   \<and> containsAny (Some ''The payment FAILED, thank you'') positiveLexicon
   \<and> getSentiment (Some ''The payment FAILED, thank you'') = ''negative''"
proof -
  have n: "containsAny (Some ''The payment FAILED, thank you'') negativeLexicon"
    by (simp add: containsAny_def negativeLexicon_def containsKeyword_lower
        toLowerCase_def toLowerChar_def)
  have p: "containsAny (Some ''The payment FAILED, thank you'') positiveLexicon"
    by (simp add: containsAny_def positiveLexicon_def containsKeyword_lower
        toLowerCase_def toLowerChar_def)
  from getSentiment_lexicon_order [of "Some ''The payment FAILED, thank you''"] n p
  show ?thesis by simp
qed

section \<open>The urgent count\<close>

lemma getPriority_values: "getPriority s \<in> {''high'', ''medium'', ''low''}"
  by (simp add: getPriority_def Let_def)

lemma getPriority_not_urgent: "getPriority s \<noteq> ''urgent''"
  using getPriority_values [of s] by auto

text \<open>
  C10. When every record of the snapshot has the priority that \<open>getPriority\<close> gives to
  some subject, the statistics count no urgent record: the count looks for the literal
  \<open>urgent\<close>, and the classifier only answers \<open>high\<close>, \<open>medium\<close> or \<open>low\<close>.
\<close>

theorem urgent_count_zero:
  assumes "\<forall>e \<in> set es. \<exists>s. priority e = Some (getPriority s)"
  shows "urgent (stats es) = 0"
proof -
  have "filter (\<lambda>email. priority email = Some ''urgent'') es = []"
  proof (rule filter_False, rule ballI)
    fix e assume "e \<in> set es"
    with assms obtain s where "priority e = Some (getPriority s)" by blast
    then show "\<not> priority e = Some ''urgent''"
      using getPriority_not_urgent [of s] by simp
  qed
  then show ?thesis by (simp add: stats_def Let_def)
qed


theorem urgent_count_zero_witness:
  "urgent (stats [\<lparr>email_id = 1, sender = Some ''ann@example.com'',
                      subject = Some ''URGENT: system access blocked'', body = None,
                      received_at = 0, priority = Some ''high'', sentiment = Some ''neutral'',
                      status = Some ''pending'', category = Some ''general''\<rparr>]) = 0"
proof -
  have "getPriority (Some ''URGENT: system access blocked'') = ''high''"
    by (simp add: getPriority_def falsy_def toLowerCase_def toLowerChar_def)
  then have h: "\<forall>e \<in> set [\<lparr>email_id = 1, sender = Some ''ann@example.com'',
                      subject = Some ''URGENT: system access blocked'', body = None,
                      received_at = 0, priority = Some ''high'', sentiment = Some ''neutral'',
                      status = Some ''pending'', category = Some ''general''\<rparr>].
       \<exists>s. priority e = Some (getPriority s)"
    by (auto intro: exI [of _ "Some ''URGENT: system access blocked''"])
  from urgent_count_zero [OF h] show ?thesis .
qed

section \<open>Loading and mutation\<close>

lemma deleteEmail_missing: "''deleteEmail'' \<notin> set emailAPI"
  by (simp add: emailAPI_def)

lemma getEmails_member: "''getEmails'' \<in> set emailAPI"
  by (simp add: emailAPI_def)

lemma updateEmail_member: "''updateEmail'' \<in> set emailAPI"
  by (simp add: emailAPI_def)

lemma loadEmails_forced:
  "loadEmails True now getEmails st =
     (case getEmails of
        Fulfilled r \<Rightarrow>
          (st\<lparr>error := None, loading := False,
              requests := requests st @ [GetEmails],
              emails := (case r of None \<Rightarrow> [] | Some l \<Rightarrow> l),
              totalEmails := int (length (case r of None \<Rightarrow> [] | Some l \<Rightarrow> l)),
              lastFetch := Some now,
              emailCache := buildCache (case r of None \<Rightarrow> [] | Some l \<Rightarrow> l)\<rparr>, None)
      | Rejected err \<Rightarrow>
          (st\<lparr>error := Some (messageOr err ''Failed to load emails''), loading := False,
              requests := requests st @ [GetEmails]\<rparr>, None))"
  by (simp add: loadEmails_def invoke_def getEmails_member Let_def split: settled.splits)

lemma loadEmails_fulfils: "snd (loadEmails forceRefresh now getEmails st) = None"
  by (simp add: loadEmails_def invoke_def Let_def split: settled.splits prod.splits)

lemma refreshEmails_eq:
  "refreshEmails now getEmails st =
     ((fst (loadEmails True now getEmails (st\<lparr>refreshing := True\<rparr>)))\<lparr>refreshing := False\<rparr>, None)"
proof -
  obtain s t where l: "loadEmails True now getEmails (st\<lparr>refreshing := True\<rparr>) = (s, t)"
    by (cases "loadEmails True now getEmails (st\<lparr>refreshing := True\<rparr>)")
  with loadEmails_fulfils [of True now getEmails "st\<lparr>refreshing := True\<rparr>"]
  have "t = None" by simp
  with l show ?thesis by (simp add: refreshEmails_def)
qed

text \<open>
  C9. Deleting a single record always ends in the error path. The record is taken out of
  the local lists and of the cache; the remote call goes through \<open>emailAPI.deleteEmail\<close>,
  which the API object does not define, so the call throws before any request is sent,
  whatever the remote side would have answered; a reload is then forced
  (\<open>loadEmails\<close> with \<open>forceRefresh\<close> true, the only request made) and the error is
  thrown again to the caller.
\<close>

theorem deleteEmail_always_rejects:
  "''deleteEmail'' \<notin> set emailAPI
   \<and> deleteEmail emailId answer now getEmails st =
       (fst (refreshEmails now getEmails (removeEmail emailId st)),
        Some (TypeError ''emailAPI.deleteEmail is not a function''))
   \<and> refreshEmails now getEmails (removeEmail emailId st) =
       ((fst (loadEmails True now getEmails ((removeEmail emailId st)\<lparr>refreshing := True\<rparr>)))
          \<lparr>refreshing := False\<rparr>, None)
   \<and> emails (removeEmail emailId st) = filter (\<lambda>email. email_id email \<noteq> emailId) (emails st)
   \<and> emailCache (removeEmail emailId st) emailId = None
   \<and> requests (fst (deleteEmail emailId answer now getEmails st)) = requests st @ [GetEmails]"
proof -
  have r: "refreshEmails now getEmails (removeEmail emailId st) =
       ((fst (loadEmails True now getEmails ((removeEmail emailId st)\<lparr>refreshing := True\<rparr>)))
          \<lparr>refreshing := False\<rparr>, None)"
    by (rule refreshEmails_eq)
  have d: "deleteEmail emailId answer now getEmails st =
       (fst (refreshEmails now getEmails (removeEmail emailId st)),
        Some (TypeError ''emailAPI.deleteEmail is not a function''))"
    by (simp add: deleteEmail_def invoke_def deleteEmail_missing r Let_def)
  have q: "requests (fst (deleteEmail emailId answer now getEmails st)) = requests st @ [GetEmails]"
  proof -
    have "requests (removeEmail emailId st) = requests st"
      by (simp add: removeEmail_def)
    then show ?thesis
      unfolding d r by (simp add: loadEmails_forced split: settled.splits)
  qed
  have e: "emails (removeEmail emailId st) = filter (\<lambda>email. email_id email \<noteq> emailId) (emails st)"
    by (simp add: removeEmail_def)
  have c: "emailCache (removeEmail emailId st) emailId = None"
    by (simp add: removeEmail_def)
  from deleteEmail_missing d r e c q show ?thesis by blast
qed

theorem deleteEmail_always_rejects_witness:
  "snd (deleteEmail 1 (Fulfilled ()) 1710496900000 (Fulfilled (Some [sampleA, sampleB])) sampleState)
     = Some (TypeError ''emailAPI.deleteEmail is not a function'')
   \<and> emails (fst (deleteEmail 1 (Fulfilled ()) 1710496900000 (Fulfilled (Some [sampleA, sampleB]))
        sampleState)) = [sampleA, sampleB]
   \<and> requests (fst (deleteEmail 1 (Fulfilled ()) 1710496900000 (Fulfilled (Some [sampleA, sampleB]))
        sampleState)) = [GetEmails, GetEmails]"
  using deleteEmail_always_rejects [of 1 "Fulfilled ()" 1710496900000
      "Fulfilled (Some [sampleA, sampleB])" sampleState]
  by (simp add: loadEmails_forced removeEmail_def sampleState_def initialState_def)

text \<open>
  C4. When the list request of a load fails, the records, the cache and the filtered
  list stay as they were and nothing is thrown to the caller; the failure is recorded
  in the \<open>error\<close> state (the message, never empty) whenever the request was attempted;
  statistics, filtering and pagination afterwards read the same snapshot as before.
\<close>

theorem loadEmails_failure_keeps_snapshot:
  "snd (loadEmails forceRefresh now (Rejected err) st) = None
   \<and> emails (fst (loadEmails forceRefresh now (Rejected err) st)) = emails st
   \<and> emailCache (fst (loadEmails forceRefresh now (Rejected err) st)) = emailCache st
   \<and> filteredEmails (fst (loadEmails forceRefresh now (Rejected err) st)) = filteredEmails st
   \<and> lastFetch (fst (loadEmails forceRefresh now (Rejected err) st)) = lastFetch st
   \<and> (forceRefresh \<or> \<not> cacheFresh (lastFetch st) now \<longrightarrow>
        error (fst (loadEmails forceRefresh now (Rejected err) st))
          = Some (messageOr err ''Failed to load emails'')
        \<and> messageOr err ''Failed to load emails'' \<noteq> [])
   \<and> stats (emails (fst (loadEmails forceRefresh now (Rejected err) st))) = stats (emails st)
   \<and> filteredEmails (applyFiltersAndSorting tza t (fst (loadEmails forceRefresh now (Rejected err) st)))
       = filteredEmails (applyFiltersAndSorting tza t st)
   \<and> paginatedEmails (fst (loadEmails forceRefresh now (Rejected err) st)) = paginatedEmails st"
  by (simp add: loadEmails_def invoke_def getEmails_member Let_def messageOr_def
      applyFiltersAndSorting_def paginatedEmails_def)

theorem loadEmails_failure_keeps_snapshot_witness:
  "error (fst (loadEmails True 1710496900000 (Rejected (Error ''Network Error'')) sampleState))
     = Some ''Network Error''
   \<and> emails (fst (loadEmails True 1710496900000 (Rejected (Error ''Network Error'')) sampleState))
     = [sampleA, sampleB]"
  using loadEmails_failure_keeps_snapshot [of True 1710496900000 "Error ''Network Error''" sampleState]
  by (simp add: messageOr_def sampleState_def initialState_def)


lemma updateEmail_fulfilled:
  "updateEmail emailId updates (Fulfilled u) now getEmails st =
     ((patchCache emailId updates (patchEmails emailId updates st))
        \<lparr>requests := requests st @ [UpdateEmail emailId updates]\<rparr>, None)"
  by (simp add: updateEmail_def invoke_def updateEmail_member Let_def patchCache_def
      patchEmails_def)

lemma updateEmail_rejected:
  "updateEmail emailId updates (Rejected err) now getEmails st =
     (fst (refreshEmails now getEmails
        ((patchCache emailId updates (patchEmails emailId updates st))
           \<lparr>requests := requests st @ [UpdateEmail emailId updates]\<rparr>)), Some err)"
  by (simp add: updateEmail_def invoke_def updateEmail_member Let_def patchCache_def
      patchEmails_def refreshEmails_eq)

text \<open>
  C5. \<open>updateEmail\<close> writes the patch into the record list and the cache first and sends
  the update request afterwards. When the request succeeds nothing else changes. When
  it fails the error is thrown again after a forced reload, which is \<open>loadEmails\<close> with
  \<open>forceRefresh\<close> true: the list is replaced by what the reload fetches, and when the
  reload fails as well the patched records stay (no field is rolled back).
\<close>

theorem updateEmail_optimistic:
  "updateEmail emailId updates (Fulfilled u) now getEmails st =
     ((patchCache emailId updates (patchEmails emailId updates st))
        \<lparr>requests := requests st @ [UpdateEmail emailId updates]\<rparr>, None)
   \<and> updateEmail emailId updates (Rejected err) now getEmails st =
     (fst (refreshEmails now getEmails
        ((patchCache emailId updates (patchEmails emailId updates st))
           \<lparr>requests := requests st @ [UpdateEmail emailId updates]\<rparr>)), Some err)
   \<and> refreshEmails now getEmails s =
     ((fst (loadEmails True now getEmails (s\<lparr>refreshing := True\<rparr>)))\<lparr>refreshing := False\<rparr>, None)
   \<and> emails (patchCache emailId updates (patchEmails emailId updates st)) =
       map (\<lambda>email. if email_id email = emailId then spread email updates else email) (emails st)
   \<and> emailCache (patchCache emailId updates (patchEmails emailId updates st)) emailId =
       map_option (\<lambda>email. spread email updates) (emailCache st emailId)
   \<and> emails (fst (updateEmail emailId updates (Rejected err) now (Rejected err') st)) =
       map (\<lambda>email. if email_id email = emailId then spread email updates else email) (emails st)
   \<and> emails (fst (updateEmail emailId updates (Rejected err) now (Fulfilled (Some l)) st)) = l
   \<and> requests (fst (updateEmail emailId updates (Rejected err) now getEmails st)) =
       requests st @ [UpdateEmail emailId updates, GetEmails]"
proof -
  have p: "emails (patchCache emailId updates (patchEmails emailId updates st)) =
       map (\<lambda>email. if email_id email = emailId then spread email updates else email) (emails st)"
    by (simp add: patchCache_def patchEmails_def)
  have c: "emailCache (patchCache emailId updates (patchEmails emailId updates st)) emailId =
       map_option (\<lambda>email. spread email updates) (emailCache st emailId)"
    by (simp add: patchCache_def patchEmails_def split: option.splits)
  have n: "emails (fst (updateEmail emailId updates (Rejected err) now (Rejected err') st)) =
       map (\<lambda>email. if email_id email = emailId then spread email updates else email) (emails st)"
    by (simp add: updateEmail_rejected refreshEmails_eq loadEmails_forced p)
  have f: "emails (fst (updateEmail emailId updates (Rejected err) now (Fulfilled (Some l)) st)) = l"
    by (simp add: updateEmail_rejected refreshEmails_eq loadEmails_forced)
  have q: "requests (fst (updateEmail emailId updates (Rejected err) now getEmails st)) =
       requests st @ [UpdateEmail emailId updates, GetEmails]"
    by (simp add: updateEmail_rejected refreshEmails_eq loadEmails_forced split: settled.splits)
  from updateEmail_fulfilled updateEmail_rejected refreshEmails_eq p c n f q
  show ?thesis by blast
qed

theorem updateEmail_optimistic_witness:
  "map status (emails (fst (updateEmail 1 [SetStatus (Some ''resolved'')] (Fulfilled ())
       1710496900000 (Fulfilled (Some [sampleA, sampleB])) sampleState)))
     = [Some ''resolved'', Some ''pending'']
   \<and> map status (emails (fst (updateEmail 1 [SetStatus (Some ''resolved'')]
       (Rejected (Error ''Request failed'')) 1710496900000 (Fulfilled (Some [sampleA, sampleB]))
       sampleState)))
     = [Some ''pending'', Some ''pending'']"
proof -
  note t = updateEmail_optimistic [of 1 "[SetStatus (Some ''resolved'')]" "()" 1710496900000
      "Fulfilled (Some [sampleA, sampleB])" sampleState "Error ''Request failed''" sampleState
      "Error ''Request failed''" "[sampleA, sampleB]"]
  from t have a: "updateEmail 1 [SetStatus (Some ''resolved'')] (Fulfilled ())
       1710496900000 (Fulfilled (Some [sampleA, sampleB])) sampleState =
     ((patchCache 1 [SetStatus (Some ''resolved'')]
         (patchEmails 1 [SetStatus (Some ''resolved'')] sampleState))
        \<lparr>requests := requests sampleState @ [UpdateEmail 1 [SetStatus (Some ''resolved'')]]\<rparr>,
      None)"
    by blast
  from t have b: "emails (fst (updateEmail 1 [SetStatus (Some ''resolved'')]
       (Rejected (Error ''Request failed'')) 1710496900000 (Fulfilled (Some [sampleA, sampleB]))
       sampleState)) = [sampleA, sampleB]"
    by blast
  have c: "map status (emails (patchCache 1 [SetStatus (Some ''resolved'')]
         (patchEmails 1 [SetStatus (Some ''resolved'')] sampleState)))
     = [Some ''resolved'', Some ''pending'']"
    by (simp add: patchCache_def patchEmails_def sampleState_def initialState_def sampleA_def
        sampleB_def spread_def)
  have d: "map status [sampleA, sampleB] = [Some ''pending'', Some ''pending'']"
    by (simp add: sampleA_def sampleB_def)
  show ?thesis unfolding a b using c d by simp
qed

text \<open>
  The bulk operations only reload: whatever the selection, the single request they make
  is the list request.
\<close>

lemma bulkUpdateStatus_requests:
  "selectedEmails st \<noteq> [] \<Longrightarrow>
   requests (fst (bulkUpdateStatus newStatus now getEmails st)) = requests st @ [GetEmails]"
  by (simp add: bulkUpdateStatus_def refreshEmails_eq loadEmails_forced Let_def
      split: settled.splits)

lemma bulkDelete_requests:
  "selectedEmails st \<noteq> [] \<Longrightarrow>
   requests (fst (bulkDelete now getEmails st)) = requests st @ [GetEmails]"
  by (simp add: bulkDelete_def refreshEmails_eq loadEmails_forced Let_def
      split: settled.splits)

text \<open>
  C7. With both sample records selected, \<open>bulkUpdateStatus\<close> to \<open>resolved\<close> and
  \<open>bulkDelete\<close> clear the selection and reload, but send neither an update nor a delete
  for any selected record: the only request is the list request, and the reloaded records
  are still there, still \<open>pending\<close>.
\<close>

theorem bulk_operations_apply_nothing:
  "requests (fst (bulkUpdateStatus ''resolved'' 1710496900000
       (Fulfilled (Some [sampleA, sampleB])) sampleState)) = [GetEmails, GetEmails]
   \<and> map status (emails (fst (bulkUpdateStatus ''resolved'' 1710496900000
       (Fulfilled (Some [sampleA, sampleB])) sampleState))) = [Some ''pending'', Some ''pending'']
   \<and> selectedEmails (fst (bulkUpdateStatus ''resolved'' 1710496900000
       (Fulfilled (Some [sampleA, sampleB])) sampleState)) = []
   \<and> requests (fst (bulkDelete 1710496900000
       (Fulfilled (Some [sampleA, sampleB])) sampleState)) = [GetEmails, GetEmails]
   \<and> emails (fst (bulkDelete 1710496900000
       (Fulfilled (Some [sampleA, sampleB])) sampleState)) = [sampleA, sampleB]
   \<and> selectedEmails (fst (bulkDelete 1710496900000
       (Fulfilled (Some [sampleA, sampleB])) sampleState)) = []"
  by (simp add: bulkUpdateStatus_def bulkDelete_def refreshEmails_eq loadEmails_forced Let_def
      sampleState_def initialState_def sampleA_def sampleB_def)

section \<open>Pagination\<close>

lemma ceil_div: "b \<noteq> 0 \<Longrightarrow> - ((- a) div b) = \<lceil>real_of_int a / real_of_int b\<rceil>"
proof -
  have "\<lceil>real_of_int a / real_of_int b\<rceil> = - \<lfloor>- (real_of_int a / real_of_int b)\<rfloor>"
    by (simp add: ceiling_def)
  also have "- (real_of_int a / real_of_int b) = real_of_int (- a) / real_of_int b"
    by simp
  also have "\<lfloor>real_of_int (- a) / real_of_int b\<rfloor> = (- a) div b"
    by (rule floor_divide_of_int_eq)
  finally show ?thesis by simp
qed

lemma js_slice_page:
  assumes "0 \<le> start" "0 \<le> n"
  shows "js_slice xs start (start + n) = take (nat n) (drop (nat start) xs)"
proof (cases "start \<le> int (length xs)")
  case True
  show ?thesis
  proof (cases "start + n \<le> int (length xs)")
    case True
    with assms \<open>start \<le> int (length xs)\<close> show ?thesis
      by (simp add: js_slice_def Let_def min_def)
  next
    case False
    with assms \<open>start \<le> int (length xs)\<close>
    have "length (drop (nat start) xs) \<le> nat n" by simp
    then have "take (nat n) (drop (nat start) xs) = drop (nat start) xs"
      by (rule take_all)
    moreover from False assms \<open>start \<le> int (length xs)\<close>
    have "js_slice xs start (start + n) = drop (nat start) xs"
      by (simp add: js_slice_def Let_def min_def)
    ultimately show ?thesis by simp
  qed
next
  case False
  with assms show ?thesis
    by (simp add: js_slice_def Let_def min_def)
qed

lemma paginatedEmails_slice:
  "paginatedEmails st =
     js_slice (filteredEmails st) ((currentPage st - 1) * pageSize st)
       (currentPage st * pageSize st)"
proof -
  have "(currentPage st - 1) * pageSize st + pageSize st = currentPage st * pageSize st"
    by (simp add: algebra_simps)
  then show ?thesis by (simp add: paginatedEmails_def Let_def)
qed

lemma paginatedEmails_take_drop:
  assumes "1 \<le> currentPage st" "0 \<le> pageSize st"
  shows "paginatedEmails st =
     take (nat (pageSize st)) (drop (nat ((currentPage st - 1) * pageSize st)) (filteredEmails st))"
proof -
  from assms have "0 \<le> (currentPage st - 1) * pageSize st" by simp
  from js_slice_page [OF this assms(2)] show ?thesis
    by (simp add: paginatedEmails_def Let_def)
qed

lemma goToPage_clamp:
  assumes "pageSize st \<noteq> 0"
  shows "goToPage page st =
     Some (st\<lparr>currentPage :=
       max 1 (min page \<lceil>real_of_int (totalEmails st) / real_of_int (pageSize st)\<rceil>)\<rparr>)"
  using assms ceil_div [of "pageSize st" "totalEmails st"]
  by (simp add: goToPage_def totalPages_def)

lemma ceiling_pages_pos:
  assumes "0 < n" "0 < ps"
  shows "1 \<le> \<lceil>real_of_int n / real_of_int ps\<rceil>"
proof -
  from assms have "0 < real_of_int n / real_of_int ps" by simp
  then have "0 < \<lceil>real_of_int n / real_of_int ps\<rceil>" by (simp add: ceiling_less_iff)
  then show ?thesis by linarith
qed

text \<open>
  C6, as the code has it. The page shown is the slice of the filtered list from index
  \<open>(page - 1) * pageSize\<close> up to \<open>page * pageSize\<close> (for a page from 1 on and a page size
  from 0 on: \<open>pageSize\<close> records after dropping \<open>(page - 1) * pageSize\<close>); once a filter or the
  sorting has changed and \<open>applyFiltersAndSorting\<close> has run, the current page is 1 and
  \<open>totalEmails\<close> is the length of the filtered list; for a page size other than 0,
  \<open>goToPage\<close> sets the page to \<open>max 1 (min page pages)\<close> with \<open>pages\<close> the ceiling of
  \<open>totalEmails / pageSize\<close>, which lies between 1 and \<open>max 1 pages\<close>: between 1 and \<open>pages\<close>
  when there is a record and the page size is positive, and 1 when \<open>pages\<close> is below 1, as
  it is for an empty list; for a page size of 0 and a positive count, where the number of
  pages is \<open>Infinity\<close>, it sets the page to \<open>max 1 page\<close>.
\<close>

theorem pagination_contract:
  "paginatedEmails st =
     js_slice (filteredEmails st) ((currentPage st - 1) * pageSize st)
       (currentPage st * pageSize st)
   \<and> (1 \<le> currentPage st \<and> 0 \<le> pageSize st \<longrightarrow>
        paginatedEmails st =
          take (nat (pageSize st))
            (drop (nat ((currentPage st - 1) * pageSize st)) (filteredEmails st)))
   \<and> currentPage (applyFiltersAndSorting tza now (updateFilters newFilters st)) = 1
   \<and> currentPage (applyFiltersAndSorting tza now (updateSorting field st)) = 1
   \<and> totalEmails (applyFiltersAndSorting tza now st) =
        int (length (filteredEmails (applyFiltersAndSorting tza now st)))
   \<and> (pageSize st \<noteq> 0 \<longrightarrow>
        goToPage page st =
          Some (st\<lparr>currentPage :=
            max 1 (min page \<lceil>real_of_int (totalEmails st) / real_of_int (pageSize st)\<rceil>)\<rparr>))
   \<and> (pageSize st \<noteq> 0 \<longrightarrow>
        (\<exists>st'. goToPage page st = Some st' \<and> 1 \<le> currentPage st'
           \<and> currentPage st'
               \<le> max 1 \<lceil>real_of_int (totalEmails st) / real_of_int (pageSize st)\<rceil>))
   \<and> (0 < pageSize st \<and> 0 < totalEmails st \<longrightarrow>
        (\<exists>st'. goToPage page st = Some st' \<and> 1 \<le> currentPage st'
           \<and> currentPage st' \<le> \<lceil>real_of_int (totalEmails st) / real_of_int (pageSize st)\<rceil>))
   \<and> (pageSize st \<noteq> 0 \<and> \<lceil>real_of_int (totalEmails st) / real_of_int (pageSize st)\<rceil> < 1 \<longrightarrow>
        goToPage page st = Some (st\<lparr>currentPage := 1\<rparr>))
   \<and> (pageSize st = 0 \<and> 0 < totalEmails st \<longrightarrow>
        goToPage page st = Some (st\<lparr>currentPage := max 1 page\<rparr>))"
proof -
  let ?pages = "\<lceil>real_of_int (totalEmails st) / real_of_int (pageSize st)\<rceil>"
  have reset: "\<And>s. currentPage (applyFiltersAndSorting tza now s) = 1"
    by (simp add: applyFiltersAndSorting_def Let_def)
  have count: "totalEmails (applyFiltersAndSorting tza now st) =
        int (length (filteredEmails (applyFiltersAndSorting tza now st)))"
    by (simp add: applyFiltersAndSorting_def Let_def)
  have wide: "pageSize st \<noteq> 0 \<longrightarrow>
        (\<exists>st'. goToPage page st = Some st' \<and> 1 \<le> currentPage st'
           \<and> currentPage st' \<le> max 1 ?pages)"
  proof
    assume "pageSize st \<noteq> 0"
    note g = goToPage_clamp [OF this, of page]
    show "\<exists>st'. goToPage page st = Some st' \<and> 1 \<le> currentPage st'
           \<and> currentPage st' \<le> max 1 ?pages"
      unfolding g by simp
  qed
  have range: "0 < pageSize st \<and> 0 < totalEmails st \<longrightarrow>
        (\<exists>st'. goToPage page st = Some st' \<and> 1 \<le> currentPage st'
           \<and> currentPage st' \<le> ?pages)"
  proof
    assume a: "0 < pageSize st \<and> 0 < totalEmails st"
    then have "pageSize st \<noteq> 0" by simp
    note g = goToPage_clamp [OF this, of page]
    from a have "1 \<le> ?pages"
      by (simp add: ceiling_pages_pos)
    then show "\<exists>st'. goToPage page st = Some st' \<and> 1 \<le> currentPage st'
           \<and> currentPage st' \<le> ?pages"
      unfolding g by simp
  qed
  have none: "pageSize st \<noteq> 0 \<and> ?pages < 1 \<longrightarrow> goToPage page st = Some (st\<lparr>currentPage := 1\<rparr>)"
  proof
    assume a: "pageSize st \<noteq> 0 \<and> ?pages < 1"
    then have "pageSize st \<noteq> 0" by simp
    note g = goToPage_clamp [OF this, of page]
    from a have "?pages < 1" ..
    then have "max 1 (min page ?pages) = 1" by linarith
    then show "goToPage page st = Some (st\<lparr>currentPage := 1\<rparr>)"
      unfolding g by simp
  qed
  have inf: "pageSize st = 0 \<and> 0 < totalEmails st \<longrightarrow>
        goToPage page st = Some (st\<lparr>currentPage := max 1 page\<rparr>)"
    by (simp add: goToPage_def totalPages_def)
  from paginatedEmails_slice paginatedEmails_take_drop reset count goToPage_clamp
    wide range none inf
  show ?thesis by blast
qed

text \<open>
  C6 as claimed fails for an empty list: in the initial store, which holds no record and
  has 20 records to a page, there are 0 pages and \<open>goToPage 5\<close> sets the page to 1, outside
  the range from 1 to 0. With a page size of 0 besides, the number of pages is \<open>NaN\<close> and
  so is the page.
\<close>

theorem pagination_clamp_counterexample:
  "totalEmails initialState = 0 \<and> pageSize initialState = 20
   \<and> \<lceil>real_of_int (totalEmails initialState) / real_of_int (pageSize initialState)\<rceil> = 0
   \<and> goToPage 5 initialState = Some (initialState\<lparr>currentPage := 1\<rparr>)
   \<and> \<not> (1 \<le> currentPage (initialState\<lparr>currentPage := 1\<rparr>)
          \<and> currentPage (initialState\<lparr>currentPage := 1\<rparr>)
              \<le> \<lceil>real_of_int (totalEmails initialState) / real_of_int (pageSize initialState)\<rceil>)
   \<and> goToPage 5 (initialState\<lparr>pageSize := 0\<rparr>) = None"
  by (simp add: goToPage_def totalPages_def initialState_def)

text \<open>
  The sample store with one record to a page shows its second record on page 2; page 7
  is clamped to 2 and page -3 to 1. When a filter has left nothing of the sample store,
  page 9 is clamped to 1.
\<close>

theorem pagination_contract_witness:
  "paginatedEmails pagedState = [sampleB]
   \<and> map currentPage (case goToPage 7 pagedState of None \<Rightarrow> [] | Some s \<Rightarrow> [s]) = [2]
   \<and> map currentPage (case goToPage (- 3) pagedState of None \<Rightarrow> [] | Some s \<Rightarrow> [s]) = [1]
   \<and> map currentPage
        (case goToPage 9 (sampleState\<lparr>filteredEmails := [], totalEmails := 0\<rparr>) of
           None \<Rightarrow> [] | Some s \<Rightarrow> [s]) = [1]"
proof -
  let ?empty = "sampleState\<lparr>filteredEmails := [], totalEmails := 0\<rparr>"
  have p: "1 \<le> currentPage pagedState \<and> 0 \<le> pageSize pagedState"
    by (simp add: pagedState_def sampleState_def initialState_def)
  have n: "pageSize pagedState \<noteq> 0"
    by (simp add: pagedState_def sampleState_def initialState_def)
  have c: "\<lceil>real_of_int (totalEmails pagedState) / real_of_int (pageSize pagedState)\<rceil> = 2"
    by (simp add: pagedState_def sampleState_def initialState_def)
  have e: "pageSize ?empty \<noteq> 0
      \<and> \<lceil>real_of_int (totalEmails ?empty) / real_of_int (pageSize ?empty)\<rceil> < 1"
    by (simp add: sampleState_def initialState_def)
  from pagination_contract [of pagedState utcZone 0 Map.empty "''id''" 7] p
  have a: "paginatedEmails pagedState =
          take (nat (pageSize pagedState))
            (drop (nat ((currentPage pagedState - 1) * pageSize pagedState))
              (filteredEmails pagedState))"
    by blast
  from pagination_contract [of pagedState utcZone 0 Map.empty "''id''" 7] n c
  have g7: "goToPage 7 pagedState = Some (pagedState\<lparr>currentPage := max 1 (min 7 2)\<rparr>)"
    by simp
  from pagination_contract [of pagedState utcZone 0 Map.empty "''id''" "- 3"] n c
  have g3: "goToPage (- 3) pagedState = Some (pagedState\<lparr>currentPage := max 1 (min (- 3) 2)\<rparr>)"
    by simp
  from pagination_contract [of ?empty utcZone 0 Map.empty "''id''" 9] e
  have g9: "goToPage 9 ?empty = Some (?empty\<lparr>currentPage := 1\<rparr>)"
    by blast
  show ?thesis
    unfolding a g7 g3 g9 by (simp add: pagedState_def sampleState_def initialState_def)
qed

section \<open>Contact extraction\<close>

lemma newSet_step_distinct:
  "distinct seen \<Longrightarrow>
   distinct (foldl (\<lambda>seen x. if x \<in> set seen then seen else seen @ [x]) seen xs)"
  by (induction xs arbitrary: seen) auto

lemma newSet_step_set:
  "set (foldl (\<lambda>seen x. if x \<in> set seen then seen else seen @ [x]) seen xs) = set seen \<union> set xs"
  by (induction xs arbitrary: seen) auto

lemma newSet_step_fresh:
  "distinct xs \<Longrightarrow> set seen \<inter> set xs = {} \<Longrightarrow>
   foldl (\<lambda>seen x. if x \<in> set seen then seen else seen @ [x]) seen xs = seen @ xs"
  by (induction xs arbitrary: seen) auto

lemma distinct_newSet: "distinct (newSet xs)"
  by (simp add: newSet_def newSet_step_distinct)

lemma set_newSet: "set (newSet xs) = set xs"
  by (simp add: newSet_def newSet_step_set)

lemma newSet_distinct_id: "distinct xs \<Longrightarrow> newSet xs = xs"
  by (simp add: newSet_def newSet_step_fresh)

lemma newSet_idem: "newSet (newSet xs) = newSet xs"
  by (simp add: newSet_distinct_id distinct_newSet)

text \<open>
  C8. Extraction is a function of the text alone, so two runs on the same text give the
  same result; the phone numbers and the email addresses it returns are the matches of
  the two patterns with every repeated value dropped: no value occurs twice, no match is
  lost, and deduplicating the result again changes nothing.
\<close>

theorem extractContactInfo_deduplicated:
  "distinct (contact_phones (extractContactInfo t))
   \<and> distinct (contact_emails (extractContactInfo t))
   \<and> set (contact_phones (extractContactInfo t)) = set (matchAll matchPhoneAt t)
   \<and> set (contact_emails (extractContactInfo t)) = set (matchAll matchEmailAt t)
   \<and> newSet (contact_phones (extractContactInfo t)) = contact_phones (extractContactInfo t)
   \<and> newSet (contact_emails (extractContactInfo t)) = contact_emails (extractContactInfo t)
   \<and> extractContactInfo t =
       \<lparr>contact_phones = newSet (matchAll matchPhoneAt t),
        contact_emails = newSet (matchAll matchEmailAt t)\<rparr>"
  by (simp add: extractContactInfo_def Let_def distinct_newSet set_newSet newSet_idem)

theorem extractContactInfo_deduplicated_witness:
  "contact_emails (extractContactInfo ''mail a.b@x.co.uk or a.b@x.co.uk, tel 555-123-4567'')
     = [''a.b@x.co.uk'']
   \<and> contact_phones (extractContactInfo ''mail a.b@x.co.uk or a.b@x.co.uk, tel 555-123-4567'')
     = ['' 555-123-4567'']"
proof -
  have e: "matchAll matchEmailAt ''mail a.b@x.co.uk or a.b@x.co.uk, tel 555-123-4567''
      = [''a.b@x.co.uk'', ''a.b@x.co.uk'']"
    by code_simp
  have p: "matchAll matchPhoneAt ''mail a.b@x.co.uk or a.b@x.co.uk, tel 555-123-4567''
      = ['' 555-123-4567'']"
    by code_simp
  from extractContactInfo_deduplicated
    [of "''mail a.b@x.co.uk or a.b@x.co.uk, tel 555-123-4567''"]
  have "extractContactInfo ''mail a.b@x.co.uk or a.b@x.co.uk, tel 555-123-4567'' =
       \<lparr>contact_phones = newSet (matchAll matchPhoneAt
          ''mail a.b@x.co.uk or a.b@x.co.uk, tel 555-123-4567''),
        contact_emails = newSet (matchAll matchEmailAt
          ''mail a.b@x.co.uk or a.b@x.co.uk, tel 555-123-4567'')\<rparr>"
    by blast
  then show ?thesis
    unfolding e p by (simp add: newSet_def)
qed

section \<open>Sorting\<close>

text \<open>
  The sort keeps the input order of ties for every comparison function that is transitive
  on the elements, does not put an element before one with the same key, and treats
  elements with the same key alike.
\<close>

lemma set_insert_by: "set (insert_by c x ys) = insert x (set ys)"
  by (induction ys) auto

lemma insert_by_ordered:
  assumes trans: "\<And>x y z. x \<in> S \<Longrightarrow> y \<in> S \<Longrightarrow> z \<in> S \<Longrightarrow> c x y < 0 \<Longrightarrow> c y z < 0 \<Longrightarrow> c x z < 0"
    and irrefl: "\<And>x. x \<in> S \<Longrightarrow> \<not> c x x < 0"
    and x: "x \<in> S"
  shows "set ys \<subseteq> S \<Longrightarrow> sorted_wrt (\<lambda>a b. \<not> c b a < 0) ys \<Longrightarrow>
         sorted_wrt (\<lambda>a b. \<not> c b a < 0) (insert_by c x ys)"
proof (induction ys)
  case Nil
  then show ?case by simp
next
  case (Cons y ys)
  from Cons.prems have y: "y \<in> S" and ys: "set ys \<subseteq> S"
    and after: "\<forall>b \<in> set ys. \<not> c b y < 0" and sorted: "sorted_wrt (\<lambda>a b. \<not> c b a < 0) ys"
    by auto
  show ?case
  proof (cases "c x y < 0")
    case True
    have "\<not> c b x < 0" if b: "b \<in> set (y # ys)" for b
    proof
      assume bx: "c b x < 0"
      from b ys y have bS: "b \<in> S" by auto
      from trans [OF bS x y bx True] have cby: "c b y < 0" .
      from b consider "b = y" | "b \<in> set ys" by auto
      then show False
      proof cases
        case 1
        with cby irrefl [OF y] show False by simp
      next
        case 2
        with after cby show False by blast
      qed
    qed
    with True Cons.prems show ?thesis by simp
  next
    case False
    from Cons.IH [OF ys sorted]
    have "sorted_wrt (\<lambda>a b. \<not> c b a < 0) (insert_by c x ys)" .
    with False after show ?thesis by (simp add: set_insert_by)
  qed
qed

lemma filter_insert_by:
  assumes tie: "\<And>x y. x \<in> S \<Longrightarrow> y \<in> S \<Longrightarrow> key x = key y \<Longrightarrow> \<not> c x y < 0"
    and compat: "\<And>x y z. x \<in> S \<Longrightarrow> y \<in> S \<Longrightarrow> z \<in> S \<Longrightarrow> key x = key y \<Longrightarrow> c x z < 0 \<Longrightarrow> c y z < 0"
    and x: "x \<in> S"
  shows "set ys \<subseteq> S \<Longrightarrow> sorted_wrt (\<lambda>a b. \<not> c b a < 0) ys \<Longrightarrow>
         filter (\<lambda>e. key e = k) (insert_by c x ys) =
         filter (\<lambda>e. key e = k) ys @ (if key x = k then [x] else [])"
proof (induction ys)
  case Nil
  then show ?case by simp
next
  case (Cons y ys)
  from Cons.prems have y: "y \<in> S" and ys: "set ys \<subseteq> S"
    and after: "\<forall>b \<in> set ys. \<not> c b y < 0" and sorted: "sorted_wrt (\<lambda>a b. \<not> c b a < 0) ys"
    by auto
  show ?case
  proof (cases "c x y < 0")
    case True
    have none: "key b \<noteq> key x" if b: "b \<in> set (y # ys)" for b
    proof
      assume eq: "key b = key x"
      from b ys y have bS: "b \<in> S" by auto
      from compat [OF x bS y eq [symmetric] True] have cby: "c b y < 0" .
      from b consider "b = y" | "b \<in> set ys" by auto
      then show False
      proof cases
        case 1
        with tie [OF x y] eq True show False by simp
      next
        case 2
        with after cby show False by blast
      qed
    qed
    show ?thesis
    proof (cases "key x = k")
      case k: True
      with none have "filter (\<lambda>e. key e = k) (y # ys) = []"
        by (auto simp: filter_empty_conv)
      with True k show ?thesis by simp
    next
      case False
      with True show ?thesis by simp
    qed
  next
    case False
    with Cons.IH [OF ys sorted] show ?thesis by simp
  qed
qed

lemma foldl_insert_by_stable:
  assumes trans: "\<And>x y z. x \<in> S \<Longrightarrow> y \<in> S \<Longrightarrow> z \<in> S \<Longrightarrow> c x y < 0 \<Longrightarrow> c y z < 0 \<Longrightarrow> c x z < 0"
    and tie: "\<And>x y. x \<in> S \<Longrightarrow> y \<in> S \<Longrightarrow> key x = key y \<Longrightarrow> \<not> c x y < 0"
    and compat: "\<And>x y z. x \<in> S \<Longrightarrow> y \<in> S \<Longrightarrow> z \<in> S \<Longrightarrow> key x = key y \<Longrightarrow> c x z < 0 \<Longrightarrow> c y z < 0"
  shows "set xs \<subseteq> S \<Longrightarrow> set acc \<subseteq> S \<Longrightarrow> sorted_wrt (\<lambda>a b. \<not> c b a < 0) acc \<Longrightarrow>
         filter (\<lambda>e. key e = k) (foldl (\<lambda>acc x. insert_by c x acc) acc xs) =
         filter (\<lambda>e. key e = k) acc @ filter (\<lambda>e. key e = k) xs"
proof (induction xs arbitrary: acc)
  case Nil
  then show ?case by simp
next
  case (Cons x xs)
  from Cons.prems have x: "x \<in> S" and xs: "set xs \<subseteq> S" by auto
  have irrefl: "\<And>x. x \<in> S \<Longrightarrow> \<not> c x x < 0" using tie by blast
  have s: "sorted_wrt (\<lambda>a b. \<not> c b a < 0) (insert_by c x acc)"
  proof (rule insert_by_ordered [where S = S])
    show "c x y < 0 \<Longrightarrow> c y z < 0 \<Longrightarrow> c x z < 0" if "x \<in> S" "y \<in> S" "z \<in> S" for x y z
      using that by (rule trans)
    show "\<not> c x x < 0" if "x \<in> S" for x using that by (rule irrefl)
    show "x \<in> S" by (rule x)
    show "set acc \<subseteq> S" using Cons.prems by simp
    show "sorted_wrt (\<lambda>a b. \<not> c b a < 0) acc" using Cons.prems by simp
  qed
  have sub: "set (insert_by c x acc) \<subseteq> S"
    using x Cons.prems by (simp add: set_insert_by)
  have f: "filter (\<lambda>e. key e = k) (insert_by c x acc) =
         filter (\<lambda>e. key e = k) acc @ (if key x = k then [x] else [])"
  proof (rule filter_insert_by [where S = S])
    show "\<not> c x y < 0" if "x \<in> S" "y \<in> S" "key x = key y" for x y
      using that by (rule tie)
    show "c y z < 0" if "x \<in> S" "y \<in> S" "z \<in> S" "key x = key y" "c x z < 0" for x y z
      using that by (rule compat)
    show "x \<in> S" by (rule x)
    show "set acc \<subseteq> S" using Cons.prems by simp
    show "sorted_wrt (\<lambda>a b. \<not> c b a < 0) acc" using Cons.prems by simp
  qed
  from Cons.IH [OF xs sub s] f show ?case by simp
qed

lemma array_sort_stable:
  assumes trans: "\<And>x y z. x \<in> set xs \<Longrightarrow> y \<in> set xs \<Longrightarrow> z \<in> set xs \<Longrightarrow> c x y < 0 \<Longrightarrow> c y z < 0 \<Longrightarrow> c x z < 0"
    and tie: "\<And>x y. x \<in> set xs \<Longrightarrow> y \<in> set xs \<Longrightarrow> key x = key y \<Longrightarrow> \<not> c x y < 0"
    and compat: "\<And>x y z. x \<in> set xs \<Longrightarrow> y \<in> set xs \<Longrightarrow> z \<in> set xs \<Longrightarrow> key x = key y \<Longrightarrow> c x z < 0 \<Longrightarrow> c y z < 0"
  shows "filter (\<lambda>e. key e = k) (array_sort c xs) = filter (\<lambda>e. key e = k) xs"
proof -
  have "filter (\<lambda>e. key e = k) (foldl (\<lambda>acc x. insert_by c x acc) [] xs) =
         filter (\<lambda>e. key e = k) [] @ filter (\<lambda>e. key e = k) xs"
  proof (rule foldl_insert_by_stable [where S = "set xs"])
    show "c x y < 0 \<Longrightarrow> c y z < 0 \<Longrightarrow> c x z < 0"
      if "x \<in> set xs" "y \<in> set xs" "z \<in> set xs" for x y z
      using that by (rule trans)
    show "\<not> c x y < 0" if "x \<in> set xs" "y \<in> set xs" "key x = key y" for x y
      using that by (rule tie)
    show "c y z < 0"
      if "x \<in> set xs" "y \<in> set xs" "z \<in> set xs" "key x = key y" "c x z < 0" for x y z
      using that by (rule compat)
  qed simp_all
  then show ?thesis by (simp add: array_sort_def)
qed

lemma compareValues_strings:
  "compareValues so (JStr s) (JStr t) < 0 \<longleftrightarrow>
     (if so = ''asc'' then toLowerCase s < toLowerCase t else toLowerCase t < toLowerCase s)"
  by (auto simp: compareValues_def lowerValue_def js_gt_def Let_def)

lemma compareValues_tie:
  "lowerValue a = lowerValue b \<Longrightarrow> compareValues so a b = 0"
  by (cases "lowerValue b") (auto simp: compareValues_def js_gt_def Let_def)

text \<open>
  \<open>filterAndSortEmails\<close> (EmailManagement) answers \<open>0\<close> on ties: sorting by a text property
  keeps records whose lowered values are equal in their input order, ascending or
  descending.
\<close>

lemma filterAndSort_stable:
  assumes strs: "\<forall>e \<in> set es. v e = JStr (f e)"
  shows "filter (\<lambda>e. toLowerCase (f e) = k)
           (array_sort (\<lambda>a b. compareValues so (v a) (v b)) es) =
         filter (\<lambda>e. toLowerCase (f e) = k) es"
proof (rule array_sort_stable)
  fix x y z assume "x \<in> set es" "y \<in> set es" "z \<in> set es"
  with strs have v: "v x = JStr (f x)" "v y = JStr (f y)" "v z = JStr (f z)" by auto
  show "compareValues so (v x) (v z) < 0"
    if "compareValues so (v x) (v y) < 0" "compareValues so (v y) (v z) < 0"
    using that unfolding v compareValues_strings by (auto split: if_splits)
  show "compareValues so (v y) (v z) < 0"
    if "toLowerCase (f x) = toLowerCase (f y)" "compareValues so (v x) (v z) < 0"
    using that unfolding v compareValues_strings by (auto split: if_splits)
next
  fix x y assume "x \<in> set es" "y \<in> set es"
  with strs have v: "v x = JStr (f x)" "v y = JStr (f y)" by auto
  show "\<not> compareValues so (v x) (v y) < 0" if "toLowerCase (f x) = toLowerCase (f y)"
    using that unfolding v compareValues_strings by (auto split: if_splits)
qed

lemma compareValues_numbers:
  "compareValues so (JNum s) (JNum t) < 0 \<longleftrightarrow> (if so = ''asc'' then s < t else t < s)"
  by (auto simp: compareValues_def lowerValue_def js_gt_def Let_def)

text \<open>The same for a numeric property or a date.\<close>

lemma filterAndSort_stable_numbers:
  assumes nums: "\<forall>e \<in> set es. v e = JNum (f e)"
  shows "filter (\<lambda>e. f e = k) (array_sort (\<lambda>a b. compareValues so (v a) (v b)) es) =
         filter (\<lambda>e. f e = k) es"
proof (rule array_sort_stable)
  fix x y z assume "x \<in> set es" "y \<in> set es" "z \<in> set es"
  with nums have v: "v x = JNum (f x)" "v y = JNum (f y)" "v z = JNum (f z)" by auto
  show "compareValues so (v x) (v z) < 0"
    if "compareValues so (v x) (v y) < 0" "compareValues so (v y) (v z) < 0"
    using that unfolding v compareValues_numbers by (auto split: if_splits)
  show "compareValues so (v y) (v z) < 0"
    if "f x = f y" "compareValues so (v x) (v z) < 0"
    using that unfolding v compareValues_numbers by (auto split: if_splits)
next
  fix x y assume "x \<in> set es" "y \<in> set es"
  with nums have v: "v x = JNum (f x)" "v y = JNum (f y)" by auto
  show "\<not> compareValues so (v x) (v y) < 0" if "f x = f y"
    using that unfolding v compareValues_numbers by (auto split: if_splits)
qed

text \<open>On the two sample records, which tie on \<open>received_at\<close>, it keeps the input order.\<close>

lemma filterAndSort_keeps_sample_ties:
  "array_sort (\<lambda>a b. compareValues ''desc'' (getProp a ''received_at'') (getProp b ''received_at''))
     [sampleA, sampleB] = [sampleA, sampleB]
   \<and> array_sort (\<lambda>a b. compareValues ''asc'' (getProp a ''received_at'') (getProp b ''received_at''))
     [sampleA, sampleB] = [sampleA, sampleB]"
  by (simp add: array_sort_def compareValues_def getProp_def lowerValue_def js_gt_def
      sampleA_def sampleB_def)

text \<open>
  The comparison function of \<open>applyFiltersAndSorting\<close> (useEmails) never answers \<open>0\<close>:
  for two records with the same value it says of each that it comes first.
\<close>

lemma compareEmails_never_zero: "compareEmails sortBy' sortOrder' a b \<noteq> 0"
  by (simp add: compareEmails_def Let_def)

lemma compareEmails_tie:
  assumes "getProp a k = getProp b k"
  shows "compareEmails k so a b = - 1 \<and> compareEmails k so b a = - 1"
proof -
  have irrefl: "\<not> js_lt v v" for v by (cases v) auto
  show ?thesis
  proof (cases "k = ''received_at''")
    case True
    with assms irrefl [of "newDate (getProp b ''received_at'')"] show ?thesis
      by (simp add: compareEmails_def js_gt_def Let_def)
  next
    case False
    with assms irrefl [of "getProp b k"] show ?thesis
      by (simp add: compareEmails_def js_gt_def Let_def)
  qed
qed

text \<open>Sorting any two records that tie on the key swaps them, whatever the order.\<close>

lemma hook_sort_swaps_tied_pair:
  assumes "getProp a k = getProp b k"
  shows "array_sort (compareEmails k so) [a, b] = [b, a]"
  using compareEmails_tie [OF assms, of so] by (simp add: array_sort_def)

text \<open>
  C1. The two sample records have the same \<open>received_at\<close>. Sorting the store by
  \<open>received_at\<close> (the default key) returns them in the reverse of their input order, in
  descending and in ascending order alike: ties do not keep their input order.
\<close>

theorem hook_sort_reverses_ties:
  "sampleA \<noteq> sampleB
   \<and> getProp sampleA ''received_at'' = getProp sampleB ''received_at''
   \<and> compareEmails ''received_at'' ''desc'' sampleA sampleB = - 1
   \<and> compareEmails ''received_at'' ''desc'' sampleB sampleA = - 1
   \<and> compareEmails ''received_at'' ''asc'' sampleA sampleB = - 1
   \<and> compareEmails ''received_at'' ''asc'' sampleB sampleA = - 1
   \<and> emails sampleState = [sampleA, sampleB]
   \<and> filteredEmails (applyFiltersAndSorting utcZone 1710496900000 sampleState) = [sampleB, sampleA]
   \<and> filteredEmails (applyFiltersAndSorting utcZone 1710496900000 (sampleState\<lparr>sortOrder := ''asc''\<rparr>))
       = [sampleB, sampleA]"
proof -
  have ne: "sampleA \<noteq> sampleB" by (simp add: sampleA_def sampleB_def)
  have tie: "getProp sampleA ''received_at'' = getProp sampleB ''received_at''"
    by (simp add: getProp_def sampleA_def sampleB_def)
  note c = compareEmails_tie [OF tie]
  have f: "applyFilters utcZone 1710496900000 initialFilters [sampleA, sampleB] = [sampleA, sampleB]"
    by (simp add: applyFilters_def initialFilters_def falsy_def Let_def)
  have d: "filteredEmails (applyFiltersAndSorting utcZone 1710496900000 sampleState) = [sampleB, sampleA]"
    using c [of "''desc''"]
    by (simp add: applyFiltersAndSorting_def sampleState_def initialState_def f array_sort_def Let_def)
  have a: "filteredEmails (applyFiltersAndSorting utcZone 1710496900000 (sampleState\<lparr>sortOrder := ''asc''\<rparr>))
       = [sampleB, sampleA]"
    using c [of "''asc''"]
    by (simp add: applyFiltersAndSorting_def sampleState_def initialState_def f array_sort_def Let_def)
  have e: "emails sampleState = [sampleA, sampleB]"
    by (simp add: sampleState_def initialState_def)
  from ne tie c [of "''desc''"] c [of "''asc''"] e d a show ?thesis by blast
qed

section \<open>The calendar\<close>

text \<open>
  \<open>yearFromDay\<close> is the year of the language (\<open>yearFromDay_bounds\<close>,
  \<open>yearFromDay_unique\<close>), \<open>makeDay\<close> builds the day that the getters read back
  (\<open>makeDay_getters\<close>, \<open>getters_makeDay\<close>), and the first of a month is the day with day
  number 1 in the same month and year (\<open>firstOfMonth_getters\<close>).
\<close>

lemma div_bounds:
  fixes x k :: int
  assumes "0 < k"
  shows "k * (x div k) \<le> x" and "x < k * (x div k) + k"
proof -
  have "x = k * (x div k) + x mod k" by simp
  moreover have "0 \<le> x mod k" "x mod k < k" using assms by simp_all
  ultimately show "k * (x div k) \<le> x" and "x < k * (x div k) + k" by linarith+
qed


lemma div_eqI:
  fixes x k q :: int
  assumes "0 < k" "k * q \<le> x" "x < k * q + k"
  shows "x div k = q"
proof -
  have "x div k = ((x - k * q) + k * q) div k" by simp
  also have "\<dots> = q + (x - k * q) div k"
    using assms(1) by (metis div_mult_self2 less_irrefl)
  also have "(x - k * q) div k = 0"
    using assms by (intro div_pos_pos_trivial) simp_all
  finally show ?thesis by simp
qed

lemma div_succ:
  fixes x k :: int
  assumes k: "0 < k"
  shows "(x + 1) div k = x div k + (if (x + 1) mod k = 0 then 1 else 0)"
proof (cases "(x + 1) mod k = 0")
  case True
  have "k * ((x + 1) div k) + (x + 1) mod k = x + 1" by simp
  with True have e: "k * ((x + 1) div k) = x + 1" by simp
  have "x div k = (x + 1) div k - 1"
  proof (rule div_eqI [OF k])
    show "k * ((x + 1) div k - 1) \<le> x" using e k by (simp add: algebra_simps)
    show "x < k * ((x + 1) div k - 1) + k" using e k by (simp add: algebra_simps)
  qed
  with True show ?thesis by simp
next
  case False
  note b = div_bounds [OF k, of x]
  have "x + 1 \<noteq> k * (x div k) + k"
  proof
    assume "x + 1 = k * (x div k) + k"
    then have "x + 1 = k * (x div k + 1)" by (simp add: algebra_simps)
    then have "(x + 1) mod k = 0" by simp
    with False show False by simp
  qed
  with b have "x + 1 < k * (x div k) + k" by linarith
  moreover from b have "k * (x div k) \<le> x + 1" by linarith
  ultimately have "(x + 1) div k = x div k" by (rule div_eqI [OF k, rotated])
  with False show ?thesis by simp
qed

lemma mod_shift:
  fixes y :: int
  shows "(y - 1968) mod 4 = y mod 4"
    and "(y - 1900) mod 100 = y mod 100"
    and "(y - 1600) mod 400 = y mod 400"
  using mod_mult_self1 [of y "- 492" 4] mod_mult_self1 [of y "- 19" 100]
    mod_mult_self1 [of y "- 4" 400]
  by simp_all

lemma mod_400_100: "(y::int) mod 400 = 0 \<Longrightarrow> y mod 100 = 0"
proof -
  assume "y mod 400 = 0"
  then have "400 dvd y" by (simp add: mod_eq_0_iff_dvd)
  moreover have "(100::int) dvd 400" by simp
  ultimately have "100 dvd y" by (rule dvd_trans [rotated])
  then show ?thesis by (simp add: mod_eq_0_iff_dvd)
qed

lemma mod_100_4: "(y::int) mod 100 = 0 \<Longrightarrow> y mod 4 = 0"
proof -
  assume "y mod 100 = 0"
  then have "100 dvd y" by (simp add: mod_eq_0_iff_dvd)
  moreover have "(4::int) dvd 100" by simp
  ultimately have "4 dvd y" by (rule dvd_trans [rotated])
  then show ?thesis by (simp add: mod_eq_0_iff_dvd)
qed

lemma dayFromYear_step:
  "dayFromYear (y + 1) = dayFromYear y + (if inLeapYear y then 366 else 365)"
proof -
  have a: "(y + 1 - 1969) div 4 = (y - 1969) div 4 + (if y mod 4 = 0 then 1 else 0)"
    using div_succ [of 4 "y - 1969"] mod_shift(1) [of y] by (simp add: algebra_simps)
  have b: "(y + 1 - 1901) div 100 = (y - 1901) div 100 + (if y mod 100 = 0 then 1 else 0)"
    using div_succ [of 100 "y - 1901"] mod_shift(2) [of y] by (simp add: algebra_simps)
  have c: "(y + 1 - 1601) div 400 = (y - 1601) div 400 + (if y mod 400 = 0 then 1 else 0)"
    using div_succ [of 400 "y - 1601"] mod_shift(3) [of y] by (simp add: algebra_simps)
  show ?thesis
  proof (cases "y mod 4 = 0")
    case False
    with mod_100_4 [of y] mod_400_100 [of y] have "y mod 100 \<noteq> 0" "y mod 400 \<noteq> 0" by auto
    with False show ?thesis unfolding dayFromYear_def inLeapYear_def a b c by simp
  next
    case y4: True
    show ?thesis
    proof (cases "y mod 100 = 0")
      case False
      with mod_400_100 [of y] have "y mod 400 \<noteq> 0" by auto
      with y4 False show ?thesis unfolding dayFromYear_def inLeapYear_def a b c by simp
    next
      case True
      with y4 show ?thesis unfolding dayFromYear_def inLeapYear_def a b c by simp
    qed
  qed
qed


lemma year_lo:
  fixes q d a b c :: int
  assumes "4 * a \<le> q" "q + 68 < 100 * b + 100" "400 * c \<le> q + 368" "146097 * q \<le> 400 * d"
  shows "365 * (q - 1) + a - b + c \<le> d"
proof -
  from assms(1,2) have "400 * a \<le> 100 * q" "4 * q - 128 < 400 * b" by linarith+
  with assms(3,4) have "146000 * q - 146000 + 400 * a - 400 * b + 400 * c \<le> 400 * d"
    by linarith
  then have "400 * (365 * (q - 1) + a - b + c) \<le> 400 * d" by (simp add: algebra_simps)
  then show ?thesis by simp
qed

lemma year_hi:
  fixes q d a b c :: int
  assumes "q + 3 < 4 * a + 4" "100 * b \<le> q + 71" "q + 371 < 400 * c + 400"
    "400 * d < 146097 * q + 146097"
  shows "d < 365 * (q + 2) + a - b + c"
proof -
  from assms(1,2) have "100 * q - 100 < 400 * a" "400 * b \<le> 4 * q + 284" by linarith+
  with assms(3,4) have "400 * d < 146000 * q + 292000 + 400 * a - 400 * b + 400 * c"
    by linarith
  then have "400 * d < 400 * (365 * (q + 2) + a - b + c)" by (simp add: algebra_simps)
  then show ?thesis by simp
qed

lemma yearFromDay_bounds:
  "dayFromYear (yearFromDay d) \<le> d \<and> d < dayFromYear (yearFromDay d + 1)"
proof -
  define q where "q = (400 * d) div 146097"
  have q: "146097 * q \<le> 400 * d" "400 * d < 146097 * q + 146097"
    unfolding q_def using div_bounds [of 146097 "400 * d"] by simp_all
  have lo: "dayFromYear (1970 + q - 1) \<le> d"
  proof -
    have "dayFromYear (1970 + q - 1) =
        365 * (q - 1) + q div 4 - (q + 68) div 100 + (q + 368) div 400"
      by (simp add: dayFromYear_def algebra_simps)
    moreover have "365 * (q - 1) + q div 4 - (q + 68) div 100 + (q + 368) div 400 \<le> d"
      using div_bounds [of 4 q] div_bounds [of 100 "q + 68"] div_bounds [of 400 "q + 368"] q(1)
      by (intro year_lo) simp_all
    ultimately show ?thesis by simp
  qed
  have hi: "d < dayFromYear (1970 + q + 2)"
  proof -
    have "dayFromYear (1970 + q + 2) =
        365 * (q + 2) + (q + 3) div 4 - (q + 71) div 100 + (q + 371) div 400"
      by (simp add: dayFromYear_def algebra_simps)
    moreover have "d < 365 * (q + 2) + (q + 3) div 4 - (q + 71) div 100 + (q + 371) div 400"
      using div_bounds [of 4 "q + 3"] div_bounds [of 100 "q + 71"]
        div_bounds [of 400 "q + 371"] q(2)
      by (intro year_hi) simp_all
    ultimately show ?thesis by simp
  qed
  have y: "yearFromDay d =
      (if d < dayFromYear (1970 + q) then 1970 + q - 1
       else if dayFromYear (1970 + q + 1) \<le> d then 1970 + q + 1 else 1970 + q)"
    by (simp add: yearFromDay_def q_def Let_def)
  show ?thesis
  proof (cases "d < dayFromYear (1970 + q)")
    case True
    with lo y show ?thesis by simp
  next
    case False
    show ?thesis
    proof (cases "dayFromYear (1970 + q + 1) \<le> d")
      case True
      with False hi y show ?thesis by (simp add: algebra_simps)
    next
      case f2: False
      with False y show ?thesis by simp
    qed
  qed
qed

lemma dayFromYear_less_succ: "dayFromYear y < dayFromYear (y + 1)"
  by (simp add: dayFromYear_step)

lemma dayFromYear_mono: "y1 \<le> y2 \<Longrightarrow> dayFromYear y1 \<le> dayFromYear y2"
proof (induction y2 rule: int_ge_induct)
  case base
  show ?case by simp
next
  case (step i)
  then show ?case using dayFromYear_less_succ [of i] by simp
qed

lemma yearFromDay_unique:
  assumes "dayFromYear y \<le> d" "d < dayFromYear (y + 1)"
  shows "yearFromDay d = y"
proof (rule ccontr)
  assume ne: "yearFromDay d \<noteq> y"
  note b = yearFromDay_bounds [of d]
  show False
  proof (cases "yearFromDay d < y")
    case True
    then have "yearFromDay d + 1 \<le> y" by simp
    from dayFromYear_mono [OF this] b assms show False by simp
  next
    case False
    with ne have "y + 1 \<le> yearFromDay d" by simp
    from dayFromYear_mono [OF this] b assms show False by simp
  qed
qed

lemma leapDay_range: "0 \<le> leapDay leap \<and> leapDay leap \<le> 1"
  by (simp add: leapDay_def)

lemma month_cases:
  fixes m :: int
  assumes "0 \<le> m" "m \<le> 11"
  shows "m = 0 \<or> m = 1 \<or> m = 2 \<or> m = 3 \<or> m = 4 \<or> m = 5 \<or> m = 6 \<or> m = 7 \<or> m = 8
         \<or> m = 9 \<or> m = 10 \<or> m = 11"
proof -
  from assms have "m \<in> set [0..11]" by simp
  then show ?thesis by (simp add: upto.simps)
qed

lemma monthOfDay_range: "0 \<le> monthOfDay leap dwy \<and> monthOfDay leap dwy \<le> 11"
  by (simp add: monthOfDay_def)

lemma monthOfDay_bracket:
  assumes "0 \<le> dwy" "dwy < 365 + leapDay leap"
  shows "monthStartDay leap (monthOfDay leap dwy) \<le> dwy
         \<and> dwy < monthStartDay leap (monthOfDay leap dwy + 1)"
  using assms by (simp add: monthOfDay_def monthStartDay_def)

lemma monthStartDay_length:
  assumes "0 \<le> m" "m \<le> 11"
  shows "monthStartDay leap m + 28 \<le> monthStartDay leap (m + 1)
         \<and> monthStartDay leap (m + 1) \<le> monthStartDay leap m + 31"
  using month_cases [OF assms] leapDay_range [of leap]
  by (auto simp: monthStartDay_def)

lemma monthStartDay_range:
  assumes "0 \<le> m" "m \<le> 11"
  shows "0 \<le> monthStartDay leap m \<and> monthStartDay leap (m + 1) \<le> 365 + leapDay leap"
  using month_cases [OF assms] leapDay_range [of leap]
  by (auto simp: monthStartDay_def)

lemma monthOfDay_unique:
  assumes "0 \<le> m" "m \<le> 11" "monthStartDay leap m \<le> dwy" "dwy < monthStartDay leap (m + 1)"
  shows "monthOfDay leap dwy = m"
  using month_cases [OF assms(1,2)] assms(3,4) leapDay_range [of leap]
  by (auto simp: monthStartDay_def monthOfDay_def)

lemma dayWithinYear_range:
  "0 \<le> dayWithinYear d \<and> dayWithinYear d < 365 + leapDay (inLeapYear (yearFromDay d))"
  using yearFromDay_bounds [of d] dayFromYear_step [of "yearFromDay d"]
  by (auto simp: dayWithinYear_def leapDay_def)

lemma monthFromDay_range: "0 \<le> monthFromDay d \<and> monthFromDay d \<le> 11"
  by (simp add: monthFromDay_def monthOfDay_range)

lemma makeDay_in_range:
  assumes "0 \<le> m" "m \<le> 11"
  shows "makeDay y m dt = dayFromYear y + monthStartDay (inLeapYear y) m + dt - 1"
proof -
  from assms have "m div 12 = 0" "m mod 12 = m" by simp_all
  then show ?thesis by (simp add: makeDay_def Let_def)
qed

text \<open>The constructor inverts the getters.\<close>

lemma makeDay_getters:
  "makeDay (yearFromDay d) (monthFromDay d) (dateFromDay d + k) = d + k"
  using monthFromDay_range [of d]
  by (simp add: makeDay_in_range dateFromDay_def dayWithinYear_def)

text \<open>The getters invert the constructor on the days of a month.\<close>

lemma getters_makeDay:
  assumes m: "0 \<le> m" "m \<le> 11"
    and dt: "1 \<le> dt"
      "dt \<le> monthStartDay (inLeapYear y) (m + 1) - monthStartDay (inLeapYear y) m"
  shows "yearFromDay (makeDay y m dt) = y \<and> monthFromDay (makeDay y m dt) = m
         \<and> dateFromDay (makeDay y m dt) = dt"
proof -
  let ?d = "makeDay y m dt"
  note r = monthStartDay_range [OF m, of "inLeapYear y"]
  have d: "?d = dayFromYear y + monthStartDay (inLeapYear y) m + dt - 1"
    by (rule makeDay_in_range [OF m])
  have "dayFromYear y \<le> ?d" using d r dt by simp
  moreover have "?d < dayFromYear (y + 1)"
    using d r dt dayFromYear_step [of y] by (auto simp: leapDay_def)
  ultimately have y: "yearFromDay ?d = y" by (rule yearFromDay_unique)
  then have w: "dayWithinYear ?d = monthStartDay (inLeapYear y) m + dt - 1"
    using d by (simp add: dayWithinYear_def)
  have mo: "monthFromDay ?d = m"
    unfolding monthFromDay_def y w
    by (rule monthOfDay_unique [OF m]) (use dt in simp_all)
  show ?thesis using y mo w by (simp add: dateFromDay_def)
qed

lemma firstOfMonth_makeDay:
  "firstOfMonth d = makeDay (yearFromDay d) (monthFromDay d) 1"
  using makeDay_getters [of d "1 - dateFromDay d"] by (simp add: firstOfMonth_def)

lemma dateFromDay_range:
  "1 \<le> dateFromDay d \<and> dateFromDay d \<le> 31"
proof -
  note w = dayWithinYear_range [of d]
  from monthOfDay_bracket [of "dayWithinYear d" "inLeapYear (yearFromDay d)"] w
  have b: "monthStartDay (inLeapYear (yearFromDay d)) (monthFromDay d) \<le> dayWithinYear d"
    "dayWithinYear d < monthStartDay (inLeapYear (yearFromDay d)) (monthFromDay d + 1)"
    by (simp_all add: monthFromDay_def)
  note l = monthStartDay_length [of "monthFromDay d" "inLeapYear (yearFromDay d)"]
  show ?thesis using b l monthFromDay_range [of d] by (simp add: dateFromDay_def)
qed

text \<open>
  The first of the month is the day with day number 1 in the same month and year, and it
  is not after the day itself.
\<close>

lemma firstOfMonth_getters:
  "yearFromDay (firstOfMonth d) = yearFromDay d
   \<and> monthFromDay (firstOfMonth d) = monthFromDay d
   \<and> dateFromDay (firstOfMonth d) = 1
   \<and> firstOfMonth d \<le> d"
proof -
  note m = monthFromDay_range [of d]
  from monthStartDay_length [of "monthFromDay d" "inLeapYear (yearFromDay d)"] m
  have "1 \<le> monthStartDay (inLeapYear (yearFromDay d)) (monthFromDay d + 1)
          - monthStartDay (inLeapYear (yearFromDay d)) (monthFromDay d)"
    by simp
  with getters_makeDay [of "monthFromDay d" 1 "yearFromDay d"] m
  have "yearFromDay (firstOfMonth d) = yearFromDay d
     \<and> monthFromDay (firstOfMonth d) = monthFromDay d
     \<and> dateFromDay (firstOfMonth d) = 1"
    unfolding firstOfMonth_makeDay by simp
  moreover have "firstOfMonth d \<le> d"
    using dateFromDay_range [of d] by (simp add: firstOfMonth_def)
  ultimately show ?thesis by simp
qed









lemma calendar_examples:
  "makeDay 2024 2 15 = 19797"
  "yearFromDay 19797 = 2024 \<and> monthFromDay 19797 = 2 \<and> dateFromDay 19797 = 15"
  "yearFromDay 0 = 1970 \<and> monthFromDay 0 = 0 \<and> dateFromDay 0 = 1"
  "yearFromDay (- 1) = 1969 \<and> monthFromDay (- 1) = 11 \<and> dateFromDay (- 1) = 31"
  "yearFromDay 19782 = 2024 \<and> monthFromDay 19782 = 1 \<and> dateFromDay 19782 = 29"
  "firstOfMonth 19797 = 19783 \<and> firstOfMonth 19782 = 19754"
  "makeDay 2024 (- 1) 1 = makeDay 2023 11 1"
  "makeDay 2024 2 0 = 19782"
  by code_simp+

text \<open>
  In a zone with one offset the local day of \<open>now\<close> starts at a midnight that the clock
  shows, at or before \<open>now\<close> and less than a day before it, and the midnights are in
  order.
\<close>

lemma startOfDay_fixedZone:
  "startOfDay (fixedZone offset) now \<le> now
   \<and> now < startOfDay (fixedZone offset) now + msPerDay
   \<and> localTime (fixedZone offset) (startOfDay (fixedZone offset) now)
       = localDayOf (fixedZone offset) now * msPerDay"
proof -
  have pos: "0 < msPerDay" by (simp add: msPerDay_def)
  have d: "(now + offset) div msPerDay * msPerDay + (now + offset) mod msPerDay = now + offset"
    by simp
  have "0 \<le> (now + offset) mod msPerDay" "(now + offset) mod msPerDay < msPerDay"
    using pos by simp_all
  with d have "(now + offset) div msPerDay * msPerDay \<le> now + offset"
    and "now + offset < (now + offset) div msPerDay * msPerDay + msPerDay"
    by linarith+
  then show ?thesis
    by (simp add: startOfDay_def localMidnight_def localDayOf_def localTime_def utcOf_def
        fixedZone_def)
qed

lemma localMidnight_fixedZone:
  "localMidnight (fixedZone offset) d < localMidnight (fixedZone offset) (d + 1)"
  by (simp add: localMidnight_def utcOf_def fixedZone_def msPerDay_def)

text \<open>In a zone with one offset a day back is 24 hours back.\<close>

lemma daysBack_fixedZone:
  "daysBack (fixedZone offset) t k = t - k * msPerDay"
  by (simp add: daysBack_def utcOf_def localTime_def fixedZone_def)

text \<open>A record with no valid date is in no bucket but \<open>all\<close>.\<close>

lemma matchesDate_invalid:
  assumes "dateFilter \<in> {''today'', ''yesterday'', ''last7days'', ''last30days'', ''thisMonth'',
      ''lastMonth''}"
  shows "\<not> matchesDate z now dateFilter None"
  using assms by (auto simp add: matchesDate_def dateGe_def Let_def)

text \<open>The instants of the examples, in milliseconds since the epoch.\<close>

lemma instant_examples:
  "instant utcZone 2024 3 15 10 0 0 = 1710496800000"
  "instant utcZone 2024 3 15 0 0 1 = 1710460801000"
  "instant easternZone2024 2024 3 15 10 0 0 = 1710511200000"
  "instant easternZone2024 2024 3 8 0 0 0 = 1709874000000"
  "instant easternZone2024 2024 3 7 23 0 0 = 1709870400000"
  "instant saoPaulo2018 2018 11 4 12 0 0 = 1541340000000"
  "instant saoPaulo2018 2018 11 3 0 30 0 = 1541215800000"
  by code_simp+

text \<open>
  Across the clock change of 2024-03-10 the start of the day seven days back is not seven
  times 24 hours before the start of today; and on 2018-11-04 in Sao Paulo the day starts
  at 01:00, so that one day back from its start is 01:00 of the day before.
\<close>

lemma zone_examples:
  "startOfDay easternZone2024 (instant easternZone2024 2024 3 15 10 0 0)
     = instant easternZone2024 2024 3 15 0 0 0"
  "daysBack easternZone2024 (instant easternZone2024 2024 3 15 0 0 0) 7
     = instant easternZone2024 2024 3 8 0 0 0"
  "instant easternZone2024 2024 3 15 0 0 0 - 7 * msPerDay
     = instant easternZone2024 2024 3 8 0 0 0 - 3600000"
  "startOfDay saoPaulo2018 (instant saoPaulo2018 2018 11 4 12 0 0)
     = instant saoPaulo2018 2018 11 4 1 0 0"
  "daysBack saoPaulo2018 (instant saoPaulo2018 2018 11 4 1 0 0) 1
     = instant saoPaulo2018 2018 11 3 1 0 0"
  "localDayOf saoPaulo2018 (instant saoPaulo2018 2018 11 3 0 30 0)
     = localDayOf saoPaulo2018 (instant saoPaulo2018 2018 11 4 12 0 0) - 1"
  by code_simp+

section \<open>Date buckets\<close>

text \<open>
  The date ranges of \<open>applyFiltersAndSorting\<close> (useEmails) are other buckets:
  \<open>today\<close> is the same local day as \<open>now\<close>, \<open>week\<close> and \<open>month\<close> count 7 and 30 days of 24
  hours back from \<open>now\<close>, and every other name filters nothing.
\<close>

lemma applyDateRange_buckets:
  "applyDateRange tza now (Some ''today'') es =
     filter (\<lambda>email. localDayOf tza (received_at email) = localDayOf tza now) es"
  "applyDateRange tza now (Some ''week'') es =
     filter (\<lambda>email. now - 7 * msPerDay \<le> received_at email) es"
  "applyDateRange tza now (Some ''month'') es =
     filter (\<lambda>email. now - 30 * msPerDay \<le> received_at email) es"
  "dateRange \<noteq> Some ''today'' \<Longrightarrow> dateRange \<noteq> Some ''week'' \<Longrightarrow> dateRange \<noteq> Some ''month''
     \<Longrightarrow> applyDateRange tza now dateRange es = es"
  by (simp_all add: applyDateRange_def msPerDay_def Let_def)




end
